theory Spec2Isabelle
  imports Main
begin

section \<open>JavaScript values and the dotted-path lookup (util.ts)\<close>

text \<open>
  Host settings and plugin configuration values are arbitrary JavaScript values (\<open>any\<close>).
  They are modelled as JSON trees extended with \<open>undefined\<close> and with the built-in
  objects an ordinary object or array inherits from: \<open>Object.prototype\<close>,
  \<open>Array.prototype\<close> and their function-valued members. An object is the
  association list of its own properties, with distinct keys; the numeric payload of a
  number is carried as an integer (the code only tests numbers for truthiness).
\<close>

datatype builtin = ObjectPrototype | ArrayPrototype | BuiltinFunction string

datatype json =
    JUndefined
  | JNull
  | JBool bool
  | JNum int
  | JStr string
  | JArr "json list"
  | JObj "(string \<times> json) list"
  | JBuiltin builtin

text \<open>\<open>if (x)\<close>: the falsy values are undefined, null, false, 0 and the empty string.\<close>

fun truthy :: "json \<Rightarrow> bool" where
  "truthy JUndefined = False"
| "truthy JNull = False"
| "truthy (JBool b) = b"
| "truthy (JNum n) = (n \<noteq> 0)"
| "truthy (JStr s) = (s \<noteq> [])"
| "truthy (JArr xs) = True"
| "truthy (JObj kvs) = True"
| "truthy (JBuiltin b) = True"

text \<open>\<open>typeof x === "object"\<close>: null, arrays, objects and the two prototype objects;
  a function has type \<open>"function"\<close>.\<close>

fun typeofObject :: "json \<Rightarrow> bool" where
  "typeofObject JNull = True"
| "typeofObject (JArr xs) = True"
| "typeofObject (JObj kvs) = True"
| "typeofObject (JBuiltin ObjectPrototype) = True"
| "typeofObject (JBuiltin ArrayPrototype) = True"
| "typeofObject v = False"

text \<open>The string-named members of \<open>Object.prototype\<close> other than the \<open>__proto__\<close>
  accessor, and of \<open>Array.prototype\<close> other than \<open>length\<close> (ECMAScript 2023).\<close>

definition objectPrototypeMethods :: "string list" where
  "objectPrototypeMethods =
     [''constructor'', ''__defineGetter__'', ''__defineSetter__'', ''hasOwnProperty'',
      ''__lookupGetter__'', ''__lookupSetter__'', ''isPrototypeOf'',
      ''propertyIsEnumerable'', ''toString'', ''valueOf'', ''toLocaleString'']"

definition arrayPrototypeMethods :: "string list" where
  "arrayPrototypeMethods =
     [''constructor'', ''at'', ''concat'', ''copyWithin'', ''fill'', ''find'', ''findIndex'',
      ''findLast'', ''findLastIndex'', ''lastIndexOf'', ''pop'', ''push'', ''reverse'',
      ''shift'', ''unshift'', ''slice'', ''sort'', ''splice'', ''includes'', ''indexOf'',
      ''join'', ''keys'', ''entries'', ''values'', ''forEach'', ''filter'', ''flat'',
      ''flatMap'', ''map'', ''every'', ''some'', ''reduce'', ''reduceRight'',
      ''toLocaleString'', ''toString'', ''toReversed'', ''toSorted'', ''toSpliced'', ''with'']"

text \<open>A canonical array index: a decimal numeral without leading zero.\<close>

definition digitVal :: "char \<Rightarrow> nat" where
  "digitVal c = of_char c - 48"

definition isDigit :: "char \<Rightarrow> bool" where
  "isDigit c = (48 \<le> (of_char c :: nat) \<and> (of_char c :: nat) \<le> 57)"

definition arrayIndex :: "string \<Rightarrow> nat option" where
  "arrayIndex s =
     (if s \<noteq> [] \<and> list_all isDigit s \<and> (length s = 1 \<or> hd s \<noteq> CHR ''0'')
      then (let n = foldl (\<lambda>acc c. 10 * acc + digitVal c) 0 s
            in if n < 4294967295 then Some n else None)
      else None)"

text \<open>The own properties of a value, as name/value pairs.\<close>

fun ownProperty :: "json \<Rightarrow> string \<Rightarrow> json option" where
  "ownProperty (JObj kvs) k = map_of kvs k"
| "ownProperty (JArr xs) k =
     (if k = ''length'' then Some (JNum (int (length xs)))
      else (case arrayIndex k of
              Some i \<Rightarrow> (if i < length xs then Some (xs ! i) else None)
            | None \<Rightarrow> None))"
| "ownProperty (JBuiltin ArrayPrototype) k =
     (if k = ''length'' then Some (JNum 0)
      else if k \<in> set arrayPrototypeMethods
      then Some (JBuiltin (BuiltinFunction (''Array.prototype.'' @ k)))
      else None)"
| "ownProperty (JBuiltin ObjectPrototype) k =
     (if k \<in> set objectPrototypeMethods
      then Some (JBuiltin (BuiltinFunction (''Object.prototype.'' @ k)))
      else None)"
| "ownProperty v k = None"

text \<open>The prototype of a value of type object (\<open>Object.getPrototypeOf\<close>).\<close>

fun prototypeOf :: "json \<Rightarrow> json" where
  "prototypeOf (JObj kvs) = JBuiltin ObjectPrototype"
| "prototypeOf (JArr xs) = JBuiltin ArrayPrototype"
| "prototypeOf (JBuiltin ArrayPrototype) = JBuiltin ObjectPrototype"
| "prototypeOf v = JNull"

text \<open>
  Property lookup along the prototype chain, which has at most three links
  (array, \<open>Array.prototype\<close>, \<open>Object.prototype\<close>). The \<open>__proto__\<close> accessor of
  \<open>Object.prototype\<close> answers with the prototype of the receiver.
\<close>

fun chainProperty :: "nat \<Rightarrow> json \<Rightarrow> json \<Rightarrow> string \<Rightarrow> json option" where
  "chainProperty 0 receiver holder k = None"
| "chainProperty (Suc n) receiver holder k =
     (case ownProperty holder k of
        Some v \<Rightarrow> Some v
      | None \<Rightarrow>
          (if holder = JBuiltin ObjectPrototype
           then (if k = ''__proto__'' then Some (prototypeOf receiver) else None)
           else if prototypeOf holder = JNull then None
           else chainProperty n receiver (prototypeOf holder) k))"

text \<open>\<open>key in current\<close> and \<open>current[key]\<close>, for a \<open>current\<close> of type object.\<close>

definition hasProperty :: "string \<Rightarrow> json \<Rightarrow> bool" where
  "hasProperty k cur = (chainProperty 3 cur cur k \<noteq> None)"

definition getProperty :: "json \<Rightarrow> string \<Rightarrow> json" where
  "getProperty cur k = (case chainProperty 3 cur cur k of Some v \<Rightarrow> v | None \<Rightarrow> JUndefined)"

text \<open>\<open>valuePath.split(".")\<close>: never the empty list; \<open>"".split(".")\<close> is \<open>[""]\<close>.\<close>

fun splitDot :: "string \<Rightarrow> string list" where
  "splitDot [] = [[]]"
| "splitDot (c # cs) =
     (if c = CHR ''.'' then [] # splitDot cs
      else (case splitDot cs of
              w # ws \<Rightarrow> (c # w) # ws
            | [] \<Rightarrow> [[c]]))"

text \<open>The loop of \<open>getValueFromJSON\<close> over the keys of the path.\<close>

fun walkKeys :: "json \<Rightarrow> string list \<Rightarrow> json" where
  "walkKeys current [] = current"
| "walkKeys current (key # keys) =
     (if truthy current \<and> typeofObject current \<and> hasProperty key current
      then walkKeys (getProperty current key) keys
      else JUndefined)"

definition getValueFromJSON :: "json \<Rightarrow> string \<Rightarrow> json" where
  "getValueFromJSON json valuePath = walkKeys json (splitDot valuePath)"


text \<open>
  The lookup as the specification words it, for comparison: a walk down a key/value
  tree along the stored keys (the keys of an object, the indices of an array), with an
  explicit result for "not found".
\<close>

fun storedLookup :: "json \<Rightarrow> string list \<Rightarrow> json option" where
  "storedLookup v [] = Some v"
| "storedLookup (JObj kvs) (k # ks) =
     (case map_of kvs k of None \<Rightarrow> None | Some v \<Rightarrow> storedLookup v ks)"
| "storedLookup (JArr xs) (k # ks) =
     (case arrayIndex k of
        None \<Rightarrow> None
      | Some i \<Rightarrow> (if i < length xs then storedLookup (xs ! i) ks else None))"
| "storedLookup v (k # ks) = None"

text \<open>The names an object or an array answers to without storing them.\<close>

definition inheritedName :: "string \<Rightarrow> bool" where
  "inheritedName k \<longleftrightarrow>
     k = ''__proto__'' \<or> k = ''length'' \<or>
     k \<in> set objectPrototypeMethods \<or> k \<in> set arrayPrototypeMethods"

section \<open>Records keyed by strings\<close>

text \<open>
  A \<open>Record<string, T>\<close> is an association list with distinct keys, kept in the order in
  which JavaScript enumerates own properties: canonical array indices first, in
  ascending numeric order, then the other keys in insertion order. Keys that collide
  with members of \<open>Object.prototype\<close> are not treated specially in these records.
\<close>

fun insertKey :: "string \<Rightarrow> 'a \<Rightarrow> (string \<times> 'a) list \<Rightarrow> (string \<times> 'a) list" where
  "insertKey k v [] = [(k, v)]"
| "insertKey k v ((k', v') # r) =
     (case arrayIndex k of
        None \<Rightarrow> (k', v') # insertKey k v r
      | Some n \<Rightarrow>
          (case arrayIndex k' of
             None \<Rightarrow> (k, v) # (k', v') # r
           | Some n' \<Rightarrow> (if n < n' then (k, v) # (k', v') # r
                        else (k', v') # insertKey k v r)))"

text \<open>\<open>obj[k] = v\<close>: an existing key keeps its place.\<close>

definition upd :: "string \<Rightarrow> 'a \<Rightarrow> (string \<times> 'a) list \<Rightarrow> (string \<times> 'a) list" where
  "upd k v r =
     (if k \<in> fst ` set r then map (\<lambda>(k', v'). if k' = k then (k', v) else (k', v')) r
      else insertKey k v r)"

text \<open>\<open>delete obj[k]\<close>.\<close>

definition del :: "string \<Rightarrow> (string \<times> 'a) list \<Rightarrow> (string \<times> 'a) list" where
  "del k r = filter (\<lambda>(k', v'). k' \<noteq> k) r"

text \<open>\<open>{ ...a, ...b }\<close>: the properties of \<open>a\<close>, then those of \<open>b\<close> assigned over them.\<close>

definition assignAll :: "(string \<times> 'a) list \<Rightarrow> (string \<times> 'a) list \<Rightarrow> (string \<times> 'a) list" where
  "assignAll src target = fold (\<lambda>(k, v) acc. upd k v acc) src target"

definition spread :: "(string \<times> 'a) list \<Rightarrow> (string \<times> 'a) list \<Rightarrow> (string \<times> 'a) list" where
  "spread a b = assignAll b (assignAll a [])"

text \<open>\<open>Array.prototype.findIndex\<close>, with \<open>None\<close> for \<open>-1\<close>.\<close>

fun findIndex :: "('a \<Rightarrow> bool) \<Rightarrow> 'a list \<Rightarrow> nat option" where
  "findIndex P [] = None"
| "findIndex P (x # xs) =
     (if P x then Some 0 else (case findIndex P xs of None \<Rightarrow> None | Some i \<Rightarrow> Some (Suc i)))"

text \<open>\<open>list.splice(i, 1)\<close>.\<close>

definition removeAt :: "nat \<Rightarrow> 'a list \<Rightarrow> 'a list" where
  "removeAt i xs = take i xs @ drop (Suc i) xs"

text \<open>
  What \<open>JSON.parse(JSON.stringify(v))\<close> gives back: a property whose value is undefined
  or a function is left out, such an array element becomes null, and the two prototype
  objects have no enumerable own property.
\<close>

fun notSerialized :: "json \<Rightarrow> bool" where
  "notSerialized JUndefined = True"
| "notSerialized (JBuiltin (BuiltinFunction f)) = True"
| "notSerialized v = False"

fun roundTrip :: "json \<Rightarrow> json"
  and roundTripElements :: "json list \<Rightarrow> json list"
  and roundTripProperties :: "(string \<times> json) list \<Rightarrow> (string \<times> json) list" where
  "roundTrip (JArr xs) = JArr (roundTripElements xs)"
| "roundTrip (JObj kvs) = JObj (roundTripProperties kvs)"
| "roundTrip (JBuiltin ObjectPrototype) = JObj []"
| "roundTrip (JBuiltin ArrayPrototype) = JArr []"
| "roundTrip JUndefined = JUndefined"
| "roundTrip JNull = JNull"
| "roundTrip (JBool b) = JBool b"
| "roundTrip (JNum n) = JNum n"
| "roundTrip (JStr s) = JStr s"
| "roundTrip (JBuiltin (BuiltinFunction f)) = JUndefined"
| "roundTripElements [] = []"
| "roundTripElements (x # xs) =
     (if notSerialized x then JNull else roundTrip x) # roundTripElements xs"
| "roundTripProperties [] = []"
| "roundTripProperties ((k, v) # kvs) =
     (if notSerialized v then roundTripProperties kvs
      else (k, roundTrip v) # roundTripProperties kvs)"

section \<open>The data model (types.ts)\<close>

datatype pluginType = Translate | Summarize | Download | Tts | Transcription

record plugin =
  plugin_file :: string
  pluginId :: string
  version :: string
  version_name :: string
  title :: string
  plugin_type :: pluginType
  description :: string
  category :: string
  platforms :: "string list"
  arch :: "string list"
  icon :: string
  link :: string
  author :: string
  homepage :: string
  source :: string
  hash :: "string option"

record memoPlugins =
  plugins :: "plugin list"
  versions :: "(string \<times> string) list"

text \<open>Of a form-field declaration the manager reads the key and the inherit path only.\<close>

record manifestConfiguration =
  key :: string
  inherit :: "string option"

datatype importType = Module | Sandbox

record provider =
  provider_value :: string
  provider_label :: string
  provider_disabled :: "bool option"

text \<open>The fields of a manifest that the manager reads.\<close>

record manifest =
  m_version :: string
  m_version_name :: string
  m_title :: string
  m_description :: string
  m_type :: pluginType
  m_pluginId :: string
  m_category :: string
  m_platforms :: "string list"
  m_arch :: "string list"
  m_link :: string
  m_author :: string
  m_source :: string
  m_importType :: "importType option"
  m_provider :: provider
  m_configuration :: "manifestConfiguration list option"

type_synonym i18n = "(string \<times> (string \<times> string) list) list"

type_synonym config = "(string \<times> json) list"

record pluginProvider =
  pp_value :: string
  pp_label :: string
  pp_disabled :: "bool option"
  pp_pluginId :: string
  pp_type :: pluginType


section \<open>The disk and the manager's state (index.ts)\<close>

text \<open>
  A JSON file on disk is missing, unparsable (\<open>JSON.parse\<close> throws), or holds a value of
  the type the code casts it to. A plugin directory holds the files the manager looks
  at. What extraction of an archive yields is the directory that holds
  \<open>manifest.json\<close>; \<open>None\<close> stands for an archive that cannot be extracted.
\<close>

datatype 'a fileContent = Missing | Malformed | Content 'a

record pluginDir =
  manifest_json :: "manifest fileContent"
  i18n_json :: "i18n fileContent"
  index_js :: "string option"

type_synonym archive = "pluginDir option"

datatype fsEvent =
    WriteFile string
  | Download string
  | Extract string
  | CopyFolder string
  | RemoveFolder string
  | RemoveFile string

text \<open>The events that are calls of \<open>fs.writeFileSync\<close>.\<close>

fun isWriteFile :: "fsEvent \<Rightarrow> bool" where
  "isWriteFile (WriteFile path) = True"
| "isWriteFile e = False"

record disk =
  index_json :: "memoPlugins fileContent"
  configuration_json :: "(string \<times> config) list fileContent"
  cache_json :: "(string \<times> config) list fileContent"
  plugins_json :: "memoPlugins fileContent"
  folders :: "(string \<times> pluginDir) list"
  preset_plugins_json :: "memoPlugins fileContent"
  preset_memox :: "(string \<times> archive) list option"
  events :: "fsEvent list"

datatype error = TypeError | SyntaxError | ENOENT | ExtractError | NetworkError | EvalError

text \<open>
  The fields of the class \<open>PluginManager\<close>, and with them the disk, the module cache of
  \<open>require\<close>, the entry files evaluated so far and the next fresh object reference:
  a loaded plugin is an object, known here by its reference.
\<close>

record manager =
  pluginsCache :: "(string \<times> config) list"
  installedPlugins :: "(string \<times> plugin) list"
  pluginsConfigurations :: "(string \<times> config) list"
  installedPluginsManifests :: "(string \<times> manifest) list"
  installedPluginsI18ns :: "(string \<times> i18n) list"
  importedPlugins :: "(string \<times> nat) list"
  pluginProviders :: "pluginProvider list"
  localPlugins :: memoPlugins
  onlinePlugins :: memoPlugins
  location :: string
  presetLocation :: string
  removeDefaultPlugins :: bool
  fs :: disk
  requireCache :: "(string \<times> nat) list"
  evaluated :: "string list"
  nextReference :: nat

definition emptyCatalog :: memoPlugins where
  "emptyCatalog = \<lparr>plugins = [], versions = []\<rparr>"

definition defaultI18n :: i18n where
  "defaultI18n = [(''en'', []), (''zh'', []), (''zh_tw'', []), (''ja'', []), (''ko'', []),
                  (''es'', []), (''de'', []), (''it'', [])]"

text \<open>\<open>path.resolve(dir, name)\<close> for the relative names the manager uses.\<close>

definition resolve :: "string \<Rightarrow> string \<Rightarrow> string" where
  "resolve dir name = dir @ ''/'' @ name"

text \<open>The template \<open>`${pluginId}@${version}`\<close>: a configuration key and a directory name.\<close>

definition versionedName :: "string \<Rightarrow> string \<Rightarrow> string" where
  "versionedName pid ver = pid @ ''@'' @ ver"

text \<open>\<open>fs.writeFileSync(path, JSON.stringify(...))\<close> for the files of the installation root.\<close>

definition roundTripConfigs :: "(string \<times> config) list \<Rightarrow> (string \<times> config) list" where
  "roundTripConfigs cs = map (\<lambda>(k, c). (k, roundTripProperties c)) cs"

definition writeIndex :: "string \<Rightarrow> memoPlugins \<Rightarrow> disk \<Rightarrow> disk" where
  "writeIndex dir data d =
     d\<lparr>index_json := Content data, events := events d @ [WriteFile (resolve dir ''index.json'')]\<rparr>"

definition writeConfiguration :: "string \<Rightarrow> (string \<times> config) list \<Rightarrow> disk \<Rightarrow> disk" where
  "writeConfiguration dir cs d =
     d\<lparr>configuration_json := Content (roundTripConfigs cs),
       events := events d @ [WriteFile (resolve dir ''configuration.json'')]\<rparr>"

definition writePlugins :: "string \<Rightarrow> memoPlugins \<Rightarrow> disk \<Rightarrow> disk" where
  "writePlugins dir data d =
     d\<lparr>plugins_json := Content data, events := events d @ [WriteFile (resolve dir ''plugins.json'')]\<rparr>"

text \<open>Copying or extracting a bundle into a directory overwrites the files it brings.\<close>

definition mergeDir :: "pluginDir \<Rightarrow> pluginDir option \<Rightarrow> pluginDir" where
  "mergeDir new old =
     (case old of
        None \<Rightarrow> new
      | Some prev \<Rightarrow>
          \<lparr>manifest_json =
             (if manifest_json new = Missing then manifest_json prev else manifest_json new),
           i18n_json = (if i18n_json new = Missing then i18n_json prev else i18n_json new),
           index_js = (if index_js new = None then index_js prev else index_js new)\<rparr>)"

definition emptyDir :: pluginDir where
  "emptyDir = \<lparr>manifest_json = Missing, i18n_json = Missing, index_js = None\<rparr>"

text \<open>The descriptor built from a manifest, in \<open>installPlugins\<close> and in the batch alike.\<close>

definition pluginOfManifest :: "string \<Rightarrow> manifest \<Rightarrow> plugin" where
  "pluginOfManifest dir data =
     \<lparr>plugin_file = resolve dir (versionedName (m_pluginId data) (m_version data) @ ''/index.js''),
      pluginId = m_pluginId data,
      version = m_version data,
      version_name = m_version_name data,
      title = m_title data,
      plugin_type = m_type data,
      description = m_description data,
      category = m_category data,
      platforms = m_platforms data,
      arch = m_arch data,
      icon = resolve dir (versionedName (m_pluginId data) (m_version data) @ ''/icon.svg''),
      link = m_link data,
      author = m_author data,
      homepage = m_source data,
      source = m_source data,
      hash = None\<rparr>"

text \<open>\<open>{ ...manifest.provider, pluginId, type }\<close>.\<close>

definition providerOf :: "manifest \<Rightarrow> plugin \<Rightarrow> pluginProvider" where
  "providerOf data p =
     \<lparr>pp_value = provider_value (m_provider data),
      pp_label = provider_label (m_provider data),
      pp_disabled = provider_disabled (m_provider data),
      pp_pluginId = pluginId p,
      pp_type = plugin_type p\<rparr>"

section \<open>Catalog refresh\<close>

text \<open>
  What \<open>axios.get\<close> does: it rejects (transport error, timeout, status outside 2xx), or
  it answers with a body. Of a body the code distinguishes three shapes: one of
  \<open>res\<close>, \<open>res.success\<close>, \<open>res.data\<close> is falsy; \<open>res.data\<close> is a list of
  descriptors; \<open>res.data\<close> is truthy but has no \<open>forEach\<close>.
\<close>

datatype responseBody = NotSuccess | SuccessData "plugin list" | SuccessNoList

datatype fetchOutcome = FetchRejects | FetchBody responseBody

definition versionsOf :: "plugin list \<Rightarrow> (string \<times> string) list" where
  "versionsOf ps = fold (\<lambda>p acc. upd (pluginId p) (version p) acc) ps []"

definition getOnlinePlugins :: "fetchOutcome \<Rightarrow> manager \<Rightarrow> (error + memoPlugins) \<times> manager" where
  "getOnlinePlugins response st =
     (case response of
        FetchRejects \<Rightarrow> (Inl NetworkError, st)
      | FetchBody (SuccessData ps) \<Rightarrow>
          (let data = \<lparr>plugins = ps, versions = versionsOf ps\<rparr>
           in (Inr data, st\<lparr>fs := writePlugins (location st) data (fs st)\<rparr>))
      | FetchBody SuccessNoList \<Rightarrow> (Inl TypeError, st)
      | FetchBody NotSuccess \<Rightarrow>
          (case plugins_json (fs st) of
             Content cached \<Rightarrow> (Inr cached, st)
           | Malformed \<Rightarrow> (Inl SyntaxError, st)
           | Missing \<Rightarrow> (Inr emptyCatalog, st)))"

text \<open>\<open>getAllData\<close> returns the fields of the manager: the state itself.\<close>

definition refreshOnlinePlugins :: "fetchOutcome \<Rightarrow> manager \<Rightarrow> (error + unit) \<times> manager" where
  "refreshOnlinePlugins response st =
     (case getOnlinePlugins response st of
        (Inl e, st') \<Rightarrow> (Inl e, st')
      | (Inr data, st') \<Rightarrow> (Inr (), st'\<lparr>onlinePlugins := data\<rparr>))"

section \<open>Install and uninstall\<close>

text \<open>The seed configuration: one entry for each field with a truthy \<open>inherit\<close> path.\<close>

definition inheritConfiguration :: "json \<Rightarrow> manifestConfiguration list option \<Rightarrow> config" where
  "inheritConfiguration setting declared =
     (case declared of
        None \<Rightarrow> []
      | Some cs \<Rightarrow>
          fold (\<lambda>c acc.
                  (case inherit c of
                     None \<Rightarrow> acc
                   | Some path \<Rightarrow>
                       (if path = [] then acc
                        else upd (key c) (getValueFromJSON setting path) acc)))
               cs [])"

text \<open>
  \<open>installPlugins\<close> extracts the first pack and installs it. When the archive holds no
  manifest the function returns without a value and changes nothing in the registry.
  The temporary extraction directory, created and removed again, is left out.
\<close>

definition installPlugins :: "archive list \<Rightarrow> json \<Rightarrow> manager \<Rightarrow> (error + unit) \<times> manager" where
  "installPlugins pluginsPacks setting st =
     (case pluginsPacks of
        [] \<Rightarrow> (Inl TypeError, st)
      | None # rest \<Rightarrow> (Inl ExtractError, st)
      | Some bundle # rest \<Rightarrow>
          (case manifest_json bundle of
             Missing \<Rightarrow> (Inr (), st)
           | Malformed \<Rightarrow> (Inl SyntaxError, st)
           | Content data \<Rightarrow>
               (let plugin = pluginOfManifest (location st) data;
                    dirName = versionedName (m_pluginId data) (m_version data);
                    dir = mergeDir bundle (map_of (folders (fs st)) dirName);
                    fs1 = (fs st)\<lparr>folders := upd dirName dir (folders (fs st)),
                                  events := events (fs st) @ [CopyFolder (resolve (location st) dirName)]\<rparr>
                in (case i18n_json dir of
                      Malformed \<Rightarrow> (Inl SyntaxError, st\<lparr>fs := fs1\<rparr>)
                    | i18nFile \<Rightarrow>
                        (let i18n = (case i18nFile of Content i \<Rightarrow> i | _ \<Rightarrow> defaultI18n);
                             list = plugins (localPlugins st);
                             pluginIndex = findIndex (\<lambda>p. pluginId p = pluginId plugin) list;
                             oldPluginsConfigurations =
                               (case pluginIndex of
                                  None \<Rightarrow> []
                                | Some i \<Rightarrow>
                                    (case map_of (pluginsConfigurations st)
                                            (versionedName (pluginId (list ! i)) (version (list ! i))) of
                                       None \<Rightarrow> []
                                     | Some c \<Rightarrow> c));
                             list' = (case pluginIndex of
                                        None \<Rightarrow> plugin # list
                                      | Some i \<Rightarrow> list[i := plugin]);
                             local' = \<lparr>plugins = list',
                                       versions = upd (pluginId plugin) (version plugin)
                                                    (versions (localPlugins st))\<rparr>;
                             inheritPluginsConfigurations =
                               inheritConfiguration setting (m_configuration data);
                             configs' = upd (versionedName (m_pluginId data) (m_version data))
                                          (spread inheritPluginsConfigurations oldPluginsConfigurations)
                                          (pluginsConfigurations st);
                             providers' =
                               (case findIndex (\<lambda>p. pp_pluginId p = pluginId plugin)
                                       (pluginProviders st) of
                                  None \<Rightarrow> pluginProviders st @ [providerOf data plugin]
                                | Some i \<Rightarrow> pluginProviders st)
                         in (Inr (),
                             st\<lparr>localPlugins := local',
                                installedPlugins := upd (pluginId plugin) plugin (installedPlugins st),
                                installedPluginsManifests :=
                                  upd (pluginId plugin) data (installedPluginsManifests st),
                                installedPluginsI18ns :=
                                  upd (pluginId plugin) i18n (installedPluginsI18ns st),
                                pluginsConfigurations := configs',
                                pluginProviders := providers',
                                fs := writeConfiguration (location st) configs'
                                        (writeIndex (location st) local' fs1)\<rparr>))))))"

definition uninstallPlugin :: "string \<Rightarrow> manager \<Rightarrow> manager" where
  "uninstallPlugin pid st =
     (let list = plugins (localPlugins st);
          index = findIndex (\<lambda>p. pluginId p = pid) list;
          deletedPlugin = (case index of None \<Rightarrow> None | Some i \<Rightarrow> Some (list ! i));
          local' = \<lparr>plugins = (case index of None \<Rightarrow> list | Some i \<Rightarrow> removeAt i list),
                    versions = del pid (versions (localPlugins st))\<rparr>;
          configs' = (case deletedPlugin of
                        None \<Rightarrow> pluginsConfigurations st
                      | Some d \<Rightarrow> del (versionedName (pluginId d) (version d))
                                    (pluginsConfigurations st));
          providers' = (case findIndex (\<lambda>p. pp_pluginId p = pid) (pluginProviders st) of
                          None \<Rightarrow> pluginProviders st
                        | Some i \<Rightarrow> removeAt i (pluginProviders st));
          fs1 = writeConfiguration (location st) configs'
                  (writeIndex (location st) local' (fs st));
          fs2 = (case deletedPlugin of
                   None \<Rightarrow> fs1
                 | Some d \<Rightarrow>
                     fs1\<lparr>folders := del (versionedName (pluginId d) (version d)) (folders fs1),
                         events := events fs1 @
                           [RemoveFolder (resolve (location st)
                                           (versionedName (pluginId d) (version d)))]\<rparr>)
      in st\<lparr>localPlugins := local',
            installedPlugins := del pid (installedPlugins st),
            installedPluginsManifests := del pid (installedPluginsManifests st),
            installedPluginsI18ns := del pid (installedPluginsI18ns st),
            pluginsConfigurations := configs',
            pluginProviders := providers',
            fs := fs2\<rparr>)"

text \<open>\<open>saveConfiguration\<close> overwrites the configuration of the installed version.\<close>

definition saveConfiguration :: "string \<Rightarrow> config \<Rightarrow> manager \<Rightarrow> manager" where
  "saveConfiguration pid data st =
     (case map_of (installedPlugins st) pid of
        None \<Rightarrow> st
      | Some p \<Rightarrow>
          (let configs' = upd (versionedName pid (version p)) data (pluginsConfigurations st)
           in st\<lparr>pluginsConfigurations := configs',
                 fs := writeConfiguration (location st) configs' (fs st)\<rparr>))"

text \<open>
  \<open>installOnlinePlugins\<close> returns a promise. The download either fails at the request
  (the error callback rejects the promise) or saves the archive and calls the
  completion callback, which installs it and resolves; a failure inside that callback
  leaves the promise unsettled.
\<close>

datatype 'a promise = Pending | Fulfilled 'a | Rejected error

definition installOnlinePlugins ::
  "(string \<Rightarrow> archive option) \<Rightarrow> string \<Rightarrow> manager \<Rightarrow> unit promise \<times> manager" where
  "installOnlinePlugins downloadFile pid st =
     (case find (\<lambda>p. pluginId p = pid) (plugins (onlinePlugins st)) of
        None \<Rightarrow> (Pending, st)
      | Some online \<Rightarrow>
          (case downloadFile (link online) of
             None \<Rightarrow> (Rejected NetworkError, st)
           | Some pack \<Rightarrow>
               (let st1 = st\<lparr>fs := (fs st)\<lparr>events := events (fs st) @
                                     [Download (resolve (location st) ''_download'')]\<rparr>\<rparr>
                in (case installPlugins [pack] JUndefined st1 of
                      (Inl e, st2) \<Rightarrow> (Pending, st2)
                    | (Inr u, st2) \<Rightarrow> (Fulfilled (), st2)))))"


section \<open>The preset batch install\<close>

text \<open>
  \<open>compareVersions\<close> comes from the package compare-versions and is a parameter of the
  model: \<open>cmp a b\<close> is \<open>Some (-1)\<close>, \<open>Some 0\<close> or \<open>Some 1\<close>, or \<open>None\<close> where the
  package throws on a string that is no version.
\<close>

type_synonym comparator = "string \<Rightarrow> string \<Rightarrow> int option"

text \<open>\<open>path.parse(p).name\<close> for a directory entry: the name up to its last dot, unless
  that dot is the first character.\<close>

definition getFileNameWithoutExtension :: "string \<Rightarrow> string" where
  "getFileNameWithoutExtension p =
     (case findIndex (\<lambda>c. c = CHR ''.'') (rev p) of
        None \<Rightarrow> p
      | Some j \<Rightarrow> (if Suc j = length p then p else take (length p - Suc j) p))"

text \<open>\<open>plugins.splice(index, 1, plugin)\<close> or \<open>plugins.unshift(plugin)\<close>, then the version entry.\<close>

definition overwritePlugin :: "plugin \<Rightarrow> memoPlugins \<Rightarrow> memoPlugins" where
  "overwritePlugin p inst =
     \<lparr>plugins = (case findIndex (\<lambda>pl. pluginId pl = pluginId p) (plugins inst) of
                   Some i \<Rightarrow> (plugins inst)[i := p]
                 | None \<Rightarrow> p # plugins inst),
      versions = upd (pluginId p) (version p) (versions inst)\<rparr>"

text \<open>
  The body of the loop after the manifest has been read: the two \<open>if\<close> statements on
  the local catalog \<open>installedPlugins\<close> and the local \<open>pluginsConfigurations\<close>.
  \<open>installedPlugins.versions[id]\<close> is truthy when the entry exists and is not empty.
\<close>

definition installDefaultStep ::
  "comparator \<Rightarrow> string \<Rightarrow> manifest \<Rightarrow> memoPlugins \<Rightarrow> (string \<times> config) list
     \<Rightarrow> error + memoPlugins \<times> (string \<times> config) list" where
  "installDefaultStep cmp dir data inst cfgs =
     (let p = pluginOfManifest dir data
      in (case map_of (versions inst) (pluginId p) of
            None \<Rightarrow> Inr (overwritePlugin p inst, cfgs)
          | Some installed \<Rightarrow>
              (if installed = [] then Inr (overwritePlugin p inst, cfgs)
               else (case cmp (version p) installed of
                       None \<Rightarrow> Inl TypeError
                     | Some c \<Rightarrow>
                         (let cfgs' =
                                (if c = 1
                                 then upd (versionedName (pluginId p) (version p))
                                        (case map_of cfgs (versionedName (pluginId p) installed) of
                                           None \<Rightarrow> []
                                         | Some old \<Rightarrow> old)
                                        cfgs
                                 else cfgs);
                              inst' = (if c \<noteq> - 1 then overwritePlugin p inst else inst)
                          in Inr (inst', cfgs'))))))"

fun installDefaultLoop ::
  "comparator \<Rightarrow> string \<Rightarrow> (string \<times> archive) list \<Rightarrow> memoPlugins \<Rightarrow> (string \<times> config) list
     \<Rightarrow> disk \<Rightarrow> (error + memoPlugins \<times> (string \<times> config) list) \<times> disk" where
  "installDefaultLoop cmp dir [] inst cfgs d = (Inr (inst, cfgs), d)"
| "installDefaultLoop cmp dir ((p, pack) # res) inst cfgs d =
     (let dest = getFileNameWithoutExtension p
      in (case pack of
            None \<Rightarrow>
              (Inl ExtractError,
               d\<lparr>folders := (case map_of (folders d) dest of
                               None \<Rightarrow> upd dest emptyDir (folders d)
                             | Some existing \<Rightarrow> folders d)\<rparr>)
          | Some bundle \<Rightarrow>
              (let extracted = mergeDir bundle (map_of (folders d) dest);
                   d1 = d\<lparr>folders := upd dest extracted (folders d),
                          events := events d @ [Extract (resolve dir dest)]\<rparr>
               in (case manifest_json extracted of
                     Missing \<Rightarrow> (Inl ENOENT, d1)
                   | Malformed \<Rightarrow> (Inl SyntaxError, d1)
                   | Content data \<Rightarrow>
                       (case installDefaultStep cmp dir data inst cfgs of
                          Inl e \<Rightarrow> (Inl e, d1)
                        | Inr (inst', cfgs') \<Rightarrow> installDefaultLoop cmp dir res inst' cfgs' d1)))))"

definition installDefaultPlugins :: "comparator \<Rightarrow> manager \<Rightarrow> (error + unit) \<times> manager" where
  "installDefaultPlugins cmp st =
     (case preset_memox (fs st) of
        None \<Rightarrow> (Inl ENOENT, st)
      | Some res \<Rightarrow>
          (if res = [] then (Inr (), st)
           else (case configuration_json (fs st) of
                   Malformed \<Rightarrow> (Inl SyntaxError, st)
                 | configurationFile \<Rightarrow>
                     (let cfgs0 = (case configurationFile of Content c \<Rightarrow> c | _ \<Rightarrow> [])
                      in (case index_json (fs st) of
                            Malformed \<Rightarrow> (Inl SyntaxError, st)
                          | indexFile \<Rightarrow>
                              (let inst0 = (case indexFile of Content c \<Rightarrow> c | _ \<Rightarrow> emptyCatalog);
                                   d0 = (case indexFile of
                                           Missing \<Rightarrow> writeIndex (location st) emptyCatalog (fs st)
                                         | _ \<Rightarrow> fs st)
                               in (case installDefaultLoop cmp (location st) res inst0 cfgs0 d0 of
                                     (Inl e, d1) \<Rightarrow> (Inl e, st\<lparr>fs := d1\<rparr>)
                                   | (Inr (inst, cfgs), d1) \<Rightarrow>
                                       (let d2 = writeConfiguration (location st) cfgs
                                                   (writeIndex (location st) inst d1);
                                            d3 = (if removeDefaultPlugins st
                                                  then d2\<lparr>preset_memox := Some [],
                                                          events := events d2 @
                                                            map (\<lambda>(p, pack). RemoveFile
                                                                  (resolve (presetLocation st) p)) res\<rparr>
                                                  else d2)
                                        in (Inr (), st\<lparr>fs := d3\<rparr>)))))))))"

section \<open>Reading the registry at startup\<close>

text \<open>The branch of the loop for an entry whose directory or manifest is missing.\<close>

definition pruneEntry :: "string \<Rightarrow> string \<Rightarrow> memoPlugins \<Rightarrow> manager \<Rightarrow> memoPlugins \<times> manager" where
  "pruneEntry k ver data st =
     (\<lparr>plugins = (case findIndex (\<lambda>p. pluginId p = k) (plugins data) of
                    Some i \<Rightarrow> removeAt i (plugins data)
                  | None \<Rightarrow> plugins data),
       versions = del k (versions data)\<rparr>,
      st\<lparr>installedPlugins := del k (installedPlugins st),
         localPlugins := (localPlugins st)\<lparr>versions := del k (versions (localPlugins st))\<rparr>,
         installedPluginsManifests := del k (installedPluginsManifests st),
         installedPluginsI18ns := del k (installedPluginsI18ns st),
         pluginsConfigurations := del (versionedName k ver) (pluginsConfigurations st)\<rparr>)"

text \<open>
  The body of the loop \<open>for (const key in this.installedPlugins)\<close>; a key deleted
  before its turn would be skipped. An exception leaves the loop.
\<close>

definition readLocalStep ::
  "string \<Rightarrow> memoPlugins \<Rightarrow> manager \<Rightarrow> error + memoPlugins \<times> manager" where
  "readLocalStep k data st =
     (case map_of (installedPlugins st) k of
        None \<Rightarrow> Inr (data, st)
      | Some p \<Rightarrow>
          (case map_of (folders (fs st)) (versionedName (pluginId p) (version p)) of
             None \<Rightarrow> Inr (pruneEntry k (version p) data st)
           | Some found \<Rightarrow>
               (case manifest_json found of
                  Missing \<Rightarrow> Inr (pruneEntry k (version p) data st)
                | Malformed \<Rightarrow> Inl SyntaxError
                | Content m \<Rightarrow>
                    (case i18n_json found of
                       Malformed \<Rightarrow> Inl SyntaxError
                     | i18nFile \<Rightarrow>
                         Inr (data,
                              st\<lparr>installedPluginsManifests :=
                                    upd k m (installedPluginsManifests st),
                                  installedPluginsI18ns :=
                                    upd k (case i18nFile of Content i \<Rightarrow> i | _ \<Rightarrow> defaultI18n)
                                      (installedPluginsI18ns st),
                                  pluginProviders :=
                                    pluginProviders st @ [providerOf m p]\<rparr>)))))"

fun readLocalLoop :: "string list \<Rightarrow> memoPlugins \<Rightarrow> manager \<Rightarrow> (error + memoPlugins) \<times> manager" where
  "readLocalLoop [] data st = (Inr data, st)"
| "readLocalLoop (k # ks) data st =
     (case readLocalStep k data st of
        Inl e \<Rightarrow> (Inl e, st)
      | Inr (data', st') \<Rightarrow> readLocalLoop ks data' st')"

text \<open>
  The first step: without a preset \<open>plugins.json\<close>, the cached online catalog is read
  at once. With one, the copy and what follows it run after the function has returned.
\<close>

definition readCachedCatalog :: "manager \<Rightarrow> error + manager" where
  "readCachedCatalog st =
     (if preset_plugins_json (fs st) \<noteq> Missing then Inr st
      else (case plugins_json (fs st) of
              Missing \<Rightarrow> Inr st
            | Malformed \<Rightarrow> Inl SyntaxError
            | Content c \<Rightarrow> Inr (st\<lparr>onlinePlugins := c\<rparr>)))"

text \<open>The second step: \<open>data.plugins.forEach\<close> fills \<open>installedPlugins\<close>.\<close>

definition recordInstalled :: "memoPlugins \<Rightarrow> manager \<Rightarrow> manager" where
  "recordInstalled data st =
     st\<lparr>installedPlugins :=
          fold (\<lambda>p acc. upd (pluginId p) p acc) (plugins data) (installedPlugins st)\<rparr>"

text \<open>The fourth and the fifth step: the configurations and the plugin cache are read
  from their files, key by key.\<close>

definition readConfigurations :: "manager \<Rightarrow> error + manager" where
  "readConfigurations st =
     (case configuration_json (fs st) of
        Missing \<Rightarrow> Inr st
      | Malformed \<Rightarrow> Inl SyntaxError
      | Content cs \<Rightarrow>
          Inr (st\<lparr>pluginsConfigurations := assignAll cs (pluginsConfigurations st)\<rparr>))"

definition readCache :: "manager \<Rightarrow> error + manager" where
  "readCache st =
     (case cache_json (fs st) of
        Missing \<Rightarrow> Inr st
      | Malformed \<Rightarrow> Inl SyntaxError
      | Content cs \<Rightarrow> Inr (st\<lparr>pluginsCache := assignAll cs (pluginsCache st)\<rparr>))"

text \<open>
  \<open>_readLocalPlugins\<close>, up to its return. The promise continuations it leaves behind
  (the copy of a preset \<open>plugins.json\<close> and the first catalog refresh) run later;
  the refresh is \<open>getOnlinePlugins\<close> above.
\<close>

definition readLocalPlugins :: "manager \<Rightarrow> (error + unit) \<times> manager" where
  "readLocalPlugins st =
     (case readCachedCatalog st of
        Inl e \<Rightarrow> (Inl e, st)
      | Inr st1 \<Rightarrow>
          (case index_json (fs st1) of
             Missing \<Rightarrow> (Inl ENOENT, st1)
           | Malformed \<Rightarrow> (Inl SyntaxError, st1)
           | Content data \<Rightarrow>
               (let st2 = recordInstalled data st1
                in (case readLocalLoop (map fst (installedPlugins st2)) data st2 of
                      (Inl e, st3) \<Rightarrow> (Inl e, st3)
                    | (Inr data', st3) \<Rightarrow>
                        (case readConfigurations st3 of
                           Inl e \<Rightarrow> (Inl e, st3)
                         | Inr st4 \<Rightarrow>
                             (case readCache st4 of
                                Inl e \<Rightarrow> (Inl e, st4)
                              | Inr st5 \<Rightarrow> (Inr (), st5\<lparr>localPlugins := data'\<rparr>)))))))"




section \<open>Loading a plugin\<close>

text \<open>
  Evaluating entry code either throws or yields the object the plugin exports, a new
  object at every evaluation. \<open>throwsOnLoad\<close> tells which code throws. The assignment
  of \<open>pluginCache\<close> to the global object is left out.
\<close>

definition evaluate ::
  "(string \<Rightarrow> bool) \<Rightarrow> string \<Rightarrow> string \<Rightarrow> manager \<Rightarrow> (error + nat) \<times> manager" where
  "evaluate throwsOnLoad code pluginFile st =
     (if throwsOnLoad code
      then (Inl EvalError, st\<lparr>evaluated := evaluated st @ [pluginFile]\<rparr>)
      else (Inr (nextReference st),
            st\<lparr>evaluated := evaluated st @ [pluginFile],
               nextReference := Suc (nextReference st)\<rparr>))"

text \<open>\<open>require(pluginFile)\<close>: Node evaluates a file once and keeps its exports.\<close>

definition require ::
  "(string \<Rightarrow> bool) \<Rightarrow> string \<Rightarrow> string \<Rightarrow> manager \<Rightarrow> (error + nat) \<times> manager" where
  "require throwsOnLoad code pluginFile st =
     (case map_of (requireCache st) pluginFile of
        Some h \<Rightarrow> (Inr h, st)
      | None \<Rightarrow>
          (case evaluate throwsOnLoad code pluginFile st of
             (Inl e, st') \<Rightarrow> (Inl e, st')
           | (Inr h, st') \<Rightarrow> (Inr h, st'\<lparr>requireCache := upd pluginFile h (requireCache st')\<rparr>)))"

definition loadLocalPlugin ::
  "(string \<Rightarrow> bool) \<Rightarrow> string \<Rightarrow> string \<Rightarrow> string \<Rightarrow> manager \<Rightarrow> (error + nat) \<times> manager" where
  "loadLocalPlugin throwsOnLoad pluginsString pluginFile pid st =
     (case (if pid = [] then None else map_of (importedPlugins st) pid) of
        Some h \<Rightarrow> (Inr h, st)
      | None \<Rightarrow>
          (if pid = [] then evaluate throwsOnLoad pluginsString pluginFile st
           else (case map_of (installedPluginsManifests st) pid of
                   None \<Rightarrow> (Inl TypeError, st)
                 | Some m \<Rightarrow>
                     (if m_importType m = Some Module
                      then (case require throwsOnLoad pluginsString pluginFile st of
                              (Inl e, st') \<Rightarrow> (Inl e, st')
                            | (Inr h, st') \<Rightarrow>
                                (Inr h, st'\<lparr>importedPlugins := upd pid h (importedPlugins st')\<rparr>))
                      else evaluate throwsOnLoad pluginsString pluginFile st))))"

text \<open>\<open>fs.readFileSync(pluginFile)\<close>: the entry file of the directory the path names.\<close>

definition readEntryFile :: "manager \<Rightarrow> string \<Rightarrow> string option" where
  "readEntryFile st pluginFile =
     (case find (\<lambda>(name, found). resolve (location st) (name @ ''/index.js'') = pluginFile)
             (folders (fs st)) of
        None \<Rightarrow> None
      | Some (name, found) \<Rightarrow> index_js found)"

text \<open>\<open>path.resolve(this.location, selectedPlugin.file)\<close>: an absolute path stays as it is.\<close>

definition resolveFrom :: "string \<Rightarrow> string \<Rightarrow> string" where
  "resolveFrom dir path =
     (case path of
        [] \<Rightarrow> dir
      | c # cs \<Rightarrow> (if c = CHR ''/'' then path else resolve dir path))"

definition loadPlugin :: "(string \<Rightarrow> bool) \<Rightarrow> string \<Rightarrow> manager \<Rightarrow> (error + nat) \<times> manager" where
  "loadPlugin throwsOnLoad pid st =
     (case map_of (installedPlugins st) pid of
        None \<Rightarrow> (Inl TypeError, st)
      | Some selectedPlugin \<Rightarrow>
          (let pluginFile = resolveFrom (location st) (plugin_file selectedPlugin)
           in (case readEntryFile st pluginFile of
                 None \<Rightarrow> (Inl ENOENT, st)
               | Some pluginsString \<Rightarrow>
                   loadLocalPlugin throwsOnLoad pluginsString pluginFile pid st)))"

section \<open>Sequences of operations\<close>

text \<open>The catalog invariant: no two entries of the plugin list share a pluginId.\<close>

definition uniqueIds :: "memoPlugins \<Rightarrow> bool" where
  "uniqueIds c = distinct (map pluginId (plugins c))"

text \<open>The invariant on the manager: the catalog in memory has it, and so has the catalog
  in \<open>index.json\<close>, from which the next reload will read.\<close>

definition catalogsUnique :: "manager \<Rightarrow> bool" where
  "catalogsUnique st \<longleftrightarrow>
     uniqueIds (localPlugins st) \<and>
     (case index_json (fs st) of Content c \<Rightarrow> uniqueIds c | _ \<Rightarrow> True)"

text \<open>The calls a client or the constructor makes, and the state each leaves behind,
  whether it returns or throws.\<close>

datatype operation =
    Install "archive list" json
  | InstallOnline "string \<Rightarrow> archive option" string
  | InstallPresets
  | Uninstall string
  | Reload
  | SaveConfiguration string config
  | Refresh fetchOutcome

fun perform :: "comparator \<Rightarrow> operation \<Rightarrow> manager \<Rightarrow> manager" where
  "perform cmp (Install pluginsPacks setting) st = snd (installPlugins pluginsPacks setting st)"
| "perform cmp (InstallOnline downloadFile pid) st = snd (installOnlinePlugins downloadFile pid st)"
| "perform cmp InstallPresets st = snd (installDefaultPlugins cmp st)"
| "perform cmp (Uninstall pid) st = uninstallPlugin pid st"
| "perform cmp Reload st = snd (readLocalPlugins st)"
| "perform cmp (SaveConfiguration pid data) st = saveConfiguration pid data st"
| "perform cmp (Refresh response) st = snd (refreshOnlinePlugins response st)"

section \<open>A version comparator for the examples\<close>

text \<open>
  Modelled from the spec: the package compare-versions is not part of the repository.
  The specification describes \<open>compare(a, b)\<close> as the order of dotted numeric version
  strings, segment by segment, a missing segment counting as zero.
\<close>

definition parseSegment :: "string \<Rightarrow> nat option" where
  "parseSegment s =
     (if s \<noteq> [] \<and> list_all isDigit s
      then Some (foldl (\<lambda>acc c. 10 * acc + digitVal c) 0 s) else None)"

fun compareSegments :: "nat list \<Rightarrow> nat list \<Rightarrow> int" where
  "compareSegments [] [] = 0"
| "compareSegments (x # xs) [] = (if x = 0 then compareSegments xs [] else 1)"
| "compareSegments [] (y # ys) = (if y = 0 then compareSegments [] ys else - 1)"
| "compareSegments (x # xs) (y # ys) =
     (if x < y then - 1 else if y < x then 1 else compareSegments xs ys)"

definition compareVersions :: comparator where
  "compareVersions a b =
     (case (those (map parseSegment (splitDot a)), those (map parseSegment (splitDot b))) of
        (Some x, Some y) \<Rightarrow> Some (compareSegments x y)
      | _ \<Rightarrow> None)"


section \<open>Concrete states for the examples\<close>

definition emptyDisk :: disk where
  "emptyDisk =
     \<lparr>index_json = Missing, configuration_json = Missing, cache_json = Missing,
      plugins_json = Missing, folders = [], preset_plugins_json = Missing,
      preset_memox = Some [], events = []\<rparr>"

text \<open>The manager as its field initialisers leave it, on an empty installation root.\<close>

definition freshManager :: manager where
  "freshManager =
     \<lparr>pluginsCache = [], installedPlugins = [], pluginsConfigurations = [],
      installedPluginsManifests = [], installedPluginsI18ns = [], importedPlugins = [],
      pluginProviders = [], localPlugins = emptyCatalog, onlinePlugins = emptyCatalog,
      location = ''/plugins'', presetLocation = ''/preset'', removeDefaultPlugins = False,
      fs = emptyDisk, requireCache = [], evaluated = [], nextReference = 0\<rparr>"

definition exampleManifest :: "string \<Rightarrow> string \<Rightarrow> manifest" where
  "exampleManifest pid ver =
     \<lparr>m_version = ver, m_version_name = ''release'', m_title = ''Example'',
      m_description = [], m_type = Translate, m_pluginId = pid, m_category = [],
      m_platforms = [], m_arch = [], m_link = ''https://example.org/p.memox'',
      m_author = [], m_source = [], m_importType = None,
      m_provider = \<lparr>provider_value = ''Example'', provider_label = ''Example'',
                     provider_disabled = None\<rparr>,
      m_configuration = None\<rparr>"

definition exampleBundle :: "string \<Rightarrow> string \<Rightarrow> pluginDir" where
  "exampleBundle pid ver =
     \<lparr>manifest_json = Content (exampleManifest pid ver), i18n_json = Missing,
      index_js = Some ''module.exports = {}''\<rparr>"

text \<open>The manager after plugin \<open>p\<close> has been installed in version 2.0.0.\<close>

definition installedManager :: manager where
  "installedManager =
     snd (installPlugins [Some (exampleBundle ''p'' ''2.0.0'')] JUndefined freshManager)"


text \<open>A restarted manager whose disk holds a cached online catalog listing plugin \<open>q\<close>.\<close>

definition exampleCatalog :: memoPlugins where
  "exampleCatalog =
     \<lparr>plugins = [pluginOfManifest ''/plugins'' (exampleManifest ''q'' ''1.0.0'')],
      versions = [(''q'', ''1.0.0'')]\<rparr>"

definition cachedManager :: manager where
  "cachedManager = freshManager\<lparr>fs := emptyDisk\<lparr>plugins_json := Content exampleCatalog\<rparr>\<rparr>"

text \<open>The manager with plugin \<open>p\<close> installed and plugin \<open>q\<close> in the online catalog.\<close>

definition onlineManager :: manager where
  "onlineManager = installedManager\<lparr>onlinePlugins := exampleCatalog\<rparr>"







text \<open>A restarted manager on the disk that the installation of \<open>p\<close> left, untouched.\<close>

definition restartedManager :: manager where
  "restartedManager = freshManager\<lparr>fs := fs installedManager\<rparr>"

text \<open>The manager after a plugin \<open>m\<close> with \<open>importType: "module"\<close> has been installed.\<close>

definition moduleManager :: manager where
  "moduleManager =
     snd (installPlugins
            [Some ((exampleBundle ''m'' ''1.0.0'')
                     \<lparr>manifest_json :=
                        Content ((exampleManifest ''m'' ''1.0.0'')\<lparr>m_importType := Some Module\<rparr>)\<rparr>)]
            JUndefined freshManager)"

section \<open>Facts about records, lists and lookups\<close>

lemma findIndex_None_iff: "findIndex P xs = None \<longleftrightarrow> (\<forall>x\<in>set xs. \<not> P x)"
  by (induction xs) (auto split: option.splits)

lemma findIndex_Some:
  "findIndex P xs = Some i \<Longrightarrow> i < length xs \<and> P (xs ! i)"
proof (induction xs arbitrary: i)
  case Nil
  then show ?case by simp
next
  case (Cons x xs)
  then show ?case by (auto split: if_splits option.splits)
qed

lemma set_insertKey: "set (insertKey k v r) = insert (k, v) (set r)"
  by (induction r) (auto split: option.splits if_splits)

lemma map_of_insertKey: "k \<notin> fst ` set r \<Longrightarrow> map_of (insertKey k v r) = (map_of r)(k \<mapsto> v)"
proof (induction r)
  case Nil
  then show ?case by simp
next
  case (Cons a r)
  obtain k' v' where a: "a = (k', v')" by (cases a)
  from Cons.prems a have ne: "k' \<noteq> k" and notin: "k \<notin> fst ` set r" by auto
  from Cons.IH [OF notin] ne a show ?case
    by (auto split: option.splits simp: fun_upd_twist)
qed

lemma map_of_replace:
  "map_of (map (\<lambda>(k', v'). if k' = k then (k', v) else (k', v')) r) =
     (if k \<in> fst ` set r then (map_of r)(k \<mapsto> v) else map_of r)"
  by (induction r) (auto simp: fun_upd_twist)

lemma map_of_upd: "map_of (upd k v r) = (map_of r)(k \<mapsto> v)"
  by (simp add: upd_def map_of_replace map_of_insertKey)

lemma keys_replace: "map fst (map (\<lambda>(k', v'). if k' = k then (k', v) else (k', v')) r) = map fst r"
  by (induction r) auto

lemma keys_upd: "fst ` set (upd k v r) = insert k (fst ` set r)"
proof (cases "k \<in> fst ` set r")
  case True
  have "fst ` set (upd k v r) = set (map fst (upd k v r))" by simp
  also have "\<dots> = set (map fst r)" using True by (simp only: upd_def if_True keys_replace)
  finally show ?thesis using True by auto
next
  case False
  then show ?thesis by (simp add: upd_def set_insertKey)
qed

lemma distinct_insertKey:
  "k \<notin> fst ` set r \<Longrightarrow> distinct (map fst r) \<Longrightarrow> distinct (map fst (insertKey k v r))"
proof (induction r)
  case Nil
  then show ?case by simp
next
  case (Cons a r)
  obtain k' v' where a: "a = (k', v')" by (cases a)
  from Cons.prems a have ne: "k' \<noteq> k" and notin: "k \<notin> fst ` set r"
    and d: "distinct (map fst r)" and k': "k' \<notin> fst ` set r" by auto
  have "k' \<notin> fst ` set (insertKey k v r)" using k' ne by (simp add: set_insertKey)
  with Cons.IH [OF notin d] a ne notin k' d show ?case
    by (auto split: option.splits)
qed

lemma distinct_upd: "distinct (map fst r) \<Longrightarrow> distinct (map fst (upd k v r))"
proof (cases "k \<in> fst ` set r")
  case True
  assume "distinct (map fst r)"
  with True show ?thesis by (simp only: upd_def if_True keys_replace)
next
  case False
  assume "distinct (map fst r)"
  with False show ?thesis by (simp add: upd_def distinct_insertKey)
qed

lemma del_absent: "map_of r k = None \<Longrightarrow> del k r = r"
  by (induction r) (auto simp: del_def split: if_splits)


lemma find_None_image: "find (\<lambda>p. f p = x) xs = None \<longleftrightarrow> x \<notin> f ` set xs"
  by (auto simp: find_None_iff)

lemma memoPlugins_eta: "\<lparr>plugins = plugins c, versions = versions c\<rparr> = c"
  by (cases c) simp



lemma distinct_assignAll:
  "distinct (map fst target) \<Longrightarrow> distinct (map fst (assignAll src target))"
proof (induction src arbitrary: target)
  case Nil
  then show ?case by (simp add: assignAll_def)
next
  case (Cons a src)
  obtain k0 v0 where a: "a = (k0, v0)" by (cases a)
  have "assignAll (a # src) target = assignAll src (upd k0 v0 target)"
    by (simp add: assignAll_def a)
  with Cons show ?case by (simp add: distinct_upd)
qed





lemma map_removeAt: "map f (removeAt i xs) = removeAt i (map f xs)"
  by (simp add: removeAt_def take_map drop_map)

lemma distinct_removeAt: "distinct xs \<Longrightarrow> distinct (removeAt i xs)"
proof -
  assume d: "distinct xs"
  have s: "set (drop (Suc i) xs) \<subseteq> set (drop i xs)"
    by (rule set_drop_subset_set_drop) simp
  have "distinct (take i xs @ drop i xs)" using d by simp
  then have "set (take i xs) \<inter> set (drop i xs) = {}" by (simp only: distinct_append)
  with s have "set (take i xs) \<inter> set (drop (Suc i) xs) = {}" by blast
  with d show ?thesis by (simp add: removeAt_def)
qed







section \<open>Facts about the batch loop and the startup loop\<close>

text \<open>The loop itself writes neither \<open>index.json\<close> nor \<open>configuration.json\<close>.\<close>

lemma installDefaultLoop_writes_nothing:
  "installDefaultLoop cmp dir res inst cfgs d = (r, d') \<Longrightarrow>
     filter isWriteFile (events d') = filter isWriteFile (events d)
     \<and> index_json d' = index_json d \<and> configuration_json d' = configuration_json d
     \<and> preset_memox d' = preset_memox d"
proof (induction res arbitrary: inst cfgs d)
  case Nil
  then show ?case by simp
next
  case (Cons a res)
  obtain p pack where a: "a = (p, pack)" by (cases a)
  show ?case
  proof (cases pack)
    case None
    with Cons.prems a show ?thesis by (auto simp: Let_def split: option.splits)
  next
    case (Some files)
    let ?dest = "getFileNameWithoutExtension p"
    let ?extracted = "mergeDir files (map_of (folders d) ?dest)"
    let ?d1 = "d\<lparr>folders := upd ?dest ?extracted (folders d),
                 events := events d @ [Extract (resolve dir ?dest)]\<rparr>"
    show ?thesis
    proof (cases "manifest_json ?extracted")
      case Missing
      with Cons.prems a Some show ?thesis by (auto simp: Let_def)
    next
      case Malformed
      with Cons.prems a Some show ?thesis by (auto simp: Let_def)
    next
      case (Content data)
      show ?thesis
      proof (cases "installDefaultStep cmp dir data inst cfgs")
        case (Inl e)
        with Cons.prems a Some Content show ?thesis by (auto simp: Let_def)
      next
        case (Inr ic)
        obtain inst' cfgs' where ic: "ic = (inst', cfgs')" by (cases ic)
        from Cons.prems a Some Content Inr ic
        have "installDefaultLoop cmp dir res inst' cfgs' ?d1 = (r, d')" by (simp add: Let_def)
        from Cons.IH [OF this] show ?thesis by simp
      qed
    qed
  qed
qed

text \<open>One turn of the startup loop, the loop, and the steps around it.\<close>

lemma readLocalStep_cases:
  assumes "readLocalStep k data st = Inr (data', st')"
  obtains (skip) "data' = data" "st' = st"
  | (prune) p where "map_of (installedPlugins st) k = Some p"
      "pruneEntry k (version p) data st = (data', st')"
  | (keep) p m l where "map_of (installedPlugins st) k = Some p" "data' = data"
      "st' = st\<lparr>installedPluginsManifests := upd k m (installedPluginsManifests st),
                installedPluginsI18ns := upd k l (installedPluginsI18ns st),
                pluginProviders := pluginProviders st @ [providerOf m p]\<rparr>"
  using assms
  by (auto simp: readLocalStep_def split: option.splits fileContent.splits)







lemma readLocalStep_frame:
  assumes s: "readLocalStep k data st = Inr (data', st')"
  shows "fs st' = fs st"
    and "plugins (localPlugins st') = plugins (localPlugins st)"
    and "distinct (map pluginId (plugins data)) \<Longrightarrow> distinct (map pluginId (plugins data'))"
proof -
  from s show "fs st' = fs st"
    by (cases rule: readLocalStep_cases) (auto simp: pruneEntry_def)
  from s show "plugins (localPlugins st') = plugins (localPlugins st)"
    by (cases rule: readLocalStep_cases) (auto simp: pruneEntry_def)
  show "distinct (map pluginId (plugins data'))" if "distinct (map pluginId (plugins data))"
    using s that
    by (cases rule: readLocalStep_cases)
       (auto simp: pruneEntry_def map_removeAt distinct_removeAt split: option.splits)
qed

lemma readLocalLoop_frame:
  assumes "readLocalLoop ks data st = (r, st')"
  shows "fs st' = fs st \<and> plugins (localPlugins st') = plugins (localPlugins st)
       \<and> (case r of
            Inr data' \<Rightarrow> uniqueIds data \<longrightarrow> uniqueIds data'
          | Inl e \<Rightarrow> True)"
  using assms
proof (induction ks arbitrary: data st)
  case Nil
  then show ?case by auto
next
  case (Cons k ks)
  show ?case
  proof (cases "readLocalStep k data st")
    case (Inl e)
    with Cons.prems show ?thesis by auto
  next
    case (Inr ds)
    obtain data1 st1 where ds: "ds = (data1, st1)" by (cases ds)
    from Cons.prems Inr ds have rest: "readLocalLoop ks data1 st1 = (r, st')" by simp
    note f = readLocalStep_frame [OF Inr [unfolded ds]]
    from Cons.IH [OF rest] f show ?thesis
      by (cases r) (auto simp: uniqueIds_def)
  qed
qed


lemma readCachedCatalog_frame:
  "readCachedCatalog st = Inr st1 \<Longrightarrow>
     installedPlugins st1 = installedPlugins st \<and> pluginProviders st1 = pluginProviders st
     \<and> fs st1 = fs st \<and> localPlugins st1 = localPlugins st
     \<and> installedPluginsManifests st1 = installedPluginsManifests st
     \<and> installedPluginsI18ns st1 = installedPluginsI18ns st"
  by (auto simp: readCachedCatalog_def split: if_splits fileContent.splits)

lemma readConfigurations_frame:
  "readConfigurations st = Inr st1 \<Longrightarrow>
     installedPlugins st1 = installedPlugins st \<and> pluginProviders st1 = pluginProviders st
     \<and> fs st1 = fs st \<and> localPlugins st1 = localPlugins st
     \<and> installedPluginsManifests st1 = installedPluginsManifests st
     \<and> installedPluginsI18ns st1 = installedPluginsI18ns st"
  by (auto simp: readConfigurations_def split: fileContent.splits)

lemma readCache_frame:
  "readCache st = Inr st1 \<Longrightarrow>
     installedPlugins st1 = installedPlugins st \<and> pluginProviders st1 = pluginProviders st
     \<and> fs st1 = fs st \<and> localPlugins st1 = localPlugins st
     \<and> installedPluginsManifests st1 = installedPluginsManifests st
     \<and> installedPluginsI18ns st1 = installedPluginsI18ns st"
  by (auto simp: readCache_def split: fileContent.splits)


text \<open>On well-formed files the startup read and the preset batch return.\<close>

lemma readLocalStep_returns:
  assumes "\<forall>name found. map_of (folders (fs st)) name = Some found \<longrightarrow>
             manifest_json found \<noteq> Malformed \<and> i18n_json found \<noteq> Malformed"
  shows "\<exists>data' st'. readLocalStep k data st = Inr (data', st')"
proof (cases "map_of (installedPlugins st) k")
  case None
  then show ?thesis by (simp add: readLocalStep_def)
next
  case (Some p)
  show ?thesis
  proof (cases "map_of (folders (fs st)) (versionedName (pluginId p) (version p))")
    case None
    with Some show ?thesis by (cases "pruneEntry k (version p) data st") (simp add: readLocalStep_def)
  next
    case found: (Some found)
    with assms have "manifest_json found \<noteq> Malformed" "i18n_json found \<noteq> Malformed" by auto
    with Some found show ?thesis
      by (cases "pruneEntry k (version p) data st"; cases "manifest_json found";
          cases "i18n_json found")
         (simp_all add: readLocalStep_def)
  qed
qed

lemma readLocalLoop_returns:
  assumes "\<forall>name found. map_of (folders (fs st)) name = Some found \<longrightarrow>
             manifest_json found \<noteq> Malformed \<and> i18n_json found \<noteq> Malformed"
  shows "\<exists>data' st'. readLocalLoop ks data st = (Inr data', st')"
  using assms
proof (induction ks arbitrary: data st)
  case Nil
  then show ?case by simp
next
  case (Cons k ks)
  from readLocalStep_returns [OF Cons.prems, of k data] obtain data1 st1 where
    step: "readLocalStep k data st = Inr (data1, st1)" by blast
  from readLocalStep_frame(1) [OF step] Cons.prems
  have "\<forall>name found. map_of (folders (fs st1)) name = Some found \<longrightarrow>
             manifest_json found \<noteq> Malformed \<and> i18n_json found \<noteq> Malformed" by simp
  from Cons.IH [OF this, of data1] step show ?case by simp
qed

lemma readLocalPlugins_returns:
  assumes "plugins_json (fs st) \<noteq> Malformed" and "index_json (fs st) = Content data"
    and "configuration_json (fs st) \<noteq> Malformed" and "cache_json (fs st) \<noteq> Malformed"
    and "\<forall>name found. map_of (folders (fs st)) name = Some found \<longrightarrow>
           manifest_json found \<noteq> Malformed \<and> i18n_json found \<noteq> Malformed"
  shows "fst (readLocalPlugins st) = Inr ()"
proof -
  from assms(1) have "\<exists>st1. readCachedCatalog st = Inr st1"
    by (cases "plugins_json (fs st)") (simp_all add: readCachedCatalog_def)
  then obtain st1 where c: "readCachedCatalog st = Inr st1" by blast
  note f1 = readCachedCatalog_frame [OF c]
  let ?st2 = "recordInstalled data st1"
  have "fs ?st2 = fs st" using f1 by (simp add: recordInstalled_def)
  with assms(5) readLocalLoop_returns [of ?st2 "map fst (installedPlugins ?st2)" data]
  obtain data' st3 where
    loop: "readLocalLoop (map fst (installedPlugins ?st2)) data ?st2 = (Inr data', st3)"
    by auto
  from readLocalLoop_frame [OF loop] f1 have f3: "fs st3 = fs st" by (simp add: recordInstalled_def)
  from assms(3) f3 have "\<exists>st4. readConfigurations st3 = Inr st4"
    by (cases "configuration_json (fs st)") (simp_all add: readConfigurations_def)
  then obtain st4 where cf: "readConfigurations st3 = Inr st4" by blast
  from readConfigurations_frame [OF cf] f3 have f4: "fs st4 = fs st" by simp
  from assms(4) f4 have "\<exists>st5. readCache st4 = Inr st5"
    by (cases "cache_json (fs st)") (simp_all add: readCache_def)
  then obtain st5 where ca: "readCache st4 = Inr st5" by blast
  from c assms(2) f1 loop cf ca show ?thesis
    by (simp add: readLocalPlugins_def Let_def)
qed

lemma installDefaultLoop_returns:
  assumes "\<forall>(p, pack)\<in>set res. \<exists>files data. pack = Some files \<and> manifest_json files = Content data"
    and "\<forall>a b. cmp a b \<noteq> None"
  shows "\<exists>inst' cfgs' d'. installDefaultLoop cmp dir res inst cfgs d = (Inr (inst', cfgs'), d')"
  using assms(1)
proof (induction res arbitrary: inst cfgs d)
  case Nil
  then show ?case by simp
next
  case (Cons a res)
  obtain p pack where a: "a = (p, pack)" by (cases a)
  from Cons.prems a obtain files data where
    pack: "pack = Some files" and m: "manifest_json files = Content data" by auto
  have x: "manifest_json (mergeDir files (map_of (folders d) (getFileNameWithoutExtension p)))
             = Content data"
    using m by (simp add: mergeDir_def split: option.splits)
  have "\<exists>inst1 cfgs1. installDefaultStep cmp dir data inst cfgs = Inr (inst1, cfgs1)"
  proof (cases "map_of (versions inst) (m_pluginId data)")
    case None
    then show ?thesis by (simp add: installDefaultStep_def Let_def pluginOfManifest_def)
  next
    case (Some installed)
    from assms(2) obtain c where "cmp (m_version data) installed = Some c" by blast
    with Some show ?thesis by (simp add: installDefaultStep_def Let_def pluginOfManifest_def)
  qed
  then obtain inst1 cfgs1 where
    step: "installDefaultStep cmp dir data inst cfgs = Inr (inst1, cfgs1)" by blast
  from Cons.prems have "\<forall>(p, pack)\<in>set res.
      \<exists>files data. pack = Some files \<and> manifest_json files = Content data" by simp
  from Cons.IH [OF this] a pack x step show ?case by (simp add: Let_def)
qed

lemma installDefaultPlugins_returns:
  assumes "preset_memox (fs st) = Some res"
    and "configuration_json (fs st) \<noteq> Malformed" and "index_json (fs st) \<noteq> Malformed"
    and "\<forall>(p, pack)\<in>set res. \<exists>files data. pack = Some files \<and> manifest_json files = Content data"
    and "\<forall>a b. cmp a b \<noteq> None"
  shows "fst (installDefaultPlugins cmp st) = Inr ()"
proof (cases "res = []")
  case True
  with assms(1) show ?thesis by (simp add: installDefaultPlugins_def)
next
  case False
  let ?cfgs0 = "case configuration_json (fs st) of Content c \<Rightarrow> c | _ \<Rightarrow> []"
  let ?inst0 = "case index_json (fs st) of Content c \<Rightarrow> c | _ \<Rightarrow> emptyCatalog"
  let ?d0 = "case index_json (fs st) of
               Missing \<Rightarrow> writeIndex (location st) emptyCatalog (fs st) | _ \<Rightarrow> fs st"
  from installDefaultLoop_returns [OF assms(4,5), of "location st" ?inst0 ?cfgs0 ?d0]
  obtain inst cfgs d1 where
    "installDefaultLoop cmp (location st) res ?inst0 ?cfgs0 ?d0 = (Inr (inst, cfgs), d1)"
    by blast
  with False assms(1,2,3) show ?thesis
    by (cases "configuration_json (fs st)"; cases "index_json (fs st)")
       (simp_all add: installDefaultPlugins_def Let_def)
qed

section \<open>Catalog refresh: what happens when the fetch fails\<close>

text \<open>
  Claim C1, as stated, at a concrete input: the catalog refresh is to return the cached
  Online Catalog whenever the network fetch fails and never to reject. With a cache
  file on disk and a request that fails in transport, \<open>getOnlinePlugins\<close> rejects:
  nothing catches the rejection of \<open>axios.get\<close>.
\<close>

theorem getOnlinePlugins_rejects_despite_cache:
  "plugins_json (fs cachedManager) = Content exampleCatalog
   \<and> getOnlinePlugins FetchRejects cachedManager = (Inl NetworkError, cachedManager)
   \<and> refreshOnlinePlugins FetchRejects cachedManager = (Inl NetworkError, cachedManager)"
  by (simp add: getOnlinePlugins_def refreshOnlinePlugins_def cachedManager_def)

text \<open>
  Claim C1, amended: when the request is answered with a body that is not a success
  envelope and the cache file, if there is one, parses, the refresh returns the cached
  Online Catalog when the cache file exists and the empty catalog otherwise, without
  throwing and without touching the disk; \<open>refreshOnlinePlugins\<close> stores that catalog
  as the online catalog.
\<close>

theorem refresh_falls_back_to_cache:
  assumes "plugins_json (fs st) \<noteq> Malformed"
  shows "getOnlinePlugins (FetchBody NotSuccess) st =
           (Inr (case plugins_json (fs st) of Content cached \<Rightarrow> cached | _ \<Rightarrow> emptyCatalog), st)
       \<and> refreshOnlinePlugins (FetchBody NotSuccess) st =
           (Inr (), st\<lparr>onlinePlugins :=
              (case plugins_json (fs st) of Content cached \<Rightarrow> cached | _ \<Rightarrow> emptyCatalog)\<rparr>)"
  using assms
  by (cases "plugins_json (fs st)") (simp_all add: getOnlinePlugins_def refreshOnlinePlugins_def)

theorem refresh_falls_back_to_cache_witness:
  "plugins_json (fs cachedManager) \<noteq> Malformed
   \<and> getOnlinePlugins (FetchBody NotSuccess) cachedManager = (Inr exampleCatalog, cachedManager)
   \<and> refreshOnlinePlugins (FetchBody NotSuccess) cachedManager =
       (Inr (), cachedManager\<lparr>onlinePlugins := exampleCatalog\<rparr>)"
proof -
  have c: "plugins_json (fs cachedManager) = Content exampleCatalog"
    by (simp add: cachedManager_def)
  then have h: "plugins_json (fs cachedManager) \<noteq> Malformed" by simp
  from refresh_falls_back_to_cache [OF h] c h show ?thesis by simp
qed

section \<open>Loading twice\<close>

text \<open>
  Claim C2 at a concrete input: loading is to be memoized per pluginId, in sandbox mode
  too. Plugin \<open>p\<close> is installed with no \<open>importType\<close>, so it is loaded in the sandbox.
  Two calls of \<open>loadPlugin\<close> evaluate its entry file twice and return two different
  objects: only the module branch of \<open>_loadLocalPlugin\<close> stores what it loaded in
  \<open>importedPlugins\<close>.
\<close>

theorem loadPlugin_sandbox_evaluates_twice:
  "(case loadPlugin (\<lambda>code. False) ''p'' installedManager of
      (first, st1) \<Rightarrow>
        (case loadPlugin (\<lambda>code. False) ''p'' st1 of
           (second, st2) \<Rightarrow>
             first = Inr 0 \<and> second = Inr 1 \<and> importedPlugins st2 = [] \<and>
             evaluated st2 = [''/plugins/p@2.0.0/index.js'', ''/plugins/p@2.0.0/index.js'']))"
  by code_simp

text \<open>
  The module branch does store what it loaded: a plugin found in \<open>importedPlugins\<close> is
  returned as it is, and a plugin in module mode is evaluated once.
\<close>

lemma loadPlugin_module_memoized_example:
  "(case loadPlugin (\<lambda>code. False) ''m'' moduleManager of
      (first, st1) \<Rightarrow>
        (case loadPlugin (\<lambda>code. False) ''m'' st1 of
           (second, st2) \<Rightarrow>
             first = Inr 0 \<and> second = Inr 0 \<and> importedPlugins st2 = [(''m'', 0)] \<and>
             evaluated st2 = [''/plugins/m@1.0.0/index.js'']))"
  by code_simp

lemma loadPlugin_memoized:
  assumes "pid \<noteq> []" and "map_of (importedPlugins st) pid = Some h"
    and "map_of (installedPlugins st) pid = Some selectedPlugin"
    and "readEntryFile st (resolveFrom (location st) (plugin_file selectedPlugin)) = Some code"
  shows "loadPlugin throwsOnLoad pid st = (Inr h, st)"
  using assms by (simp add: loadPlugin_def loadLocalPlugin_def Let_def)

section \<open>The dotted-path lookup on an inherited name\<close>

text \<open>
  Claim C9 at a concrete input: the lookup is to return the absent value (\<open>undefined\<close>)
  whenever a key of the path is missing in the settings. The settings \<open>{}\<close> have no key
  \<open>constructor\<close>, yet \<open>"constructor" in {}\<close> holds through the prototype chain, and the
  lookup returns the function \<open>Object\<close> found there.
\<close>

theorem getValueFromJSON_returns_inherited_member:
  "getValueFromJSON (JObj []) ''constructor'' =
     JBuiltin (BuiltinFunction ''Object.prototype.constructor'')"
  by code_simp

text \<open>The examples of the specification hold: a stored path gives its value, and a path
  that leaves the stored keys gives \<open>undefined\<close>, also when there are no settings.\<close>

lemma getValueFromJSON_examples:
  "getValueFromJSON (JObj [(''openAI'', JObj [(''Host'', JStr ''x.com'')])]) ''openAI.Host''
     = JStr ''x.com''"
  "getValueFromJSON (JObj []) ''openAI.Host'' = JUndefined"
  "getValueFromJSON JUndefined ''openAI.Host'' = JUndefined"
  "inheritConfiguration (JObj [(''openAI'', JObj [(''Host'', JStr ''x.com'')])])
     (Some [\<lparr>key = ''host'', inherit = Some ''openAI.Host''\<rparr>]) = [(''host'', JStr ''x.com'')]"
  "inheritConfiguration (JObj [])
     (Some [\<lparr>key = ''host'', inherit = Some ''openAI.Host''\<rparr>]) = [(''host'', JUndefined)]"
  by code_simp+

text \<open>
  On every path that names no inherited member the lookup is the walk along the stored
  keys, with \<open>undefined\<close> for "not found".
\<close>

lemma chain_object:
  assumes "\<not> inheritedName k"
  shows "chainProperty 3 (JObj kvs) (JObj kvs) k = map_of kvs k"
proof -
  from assms have a: "k \<notin> set objectPrototypeMethods" "k \<noteq> ''__proto__''"
    by (auto simp: inheritedName_def)
  have three: "(3::nat) = Suc (Suc (Suc 0))" by simp
  show ?thesis using a by (simp add: three split: option.splits)
qed

lemma chain_array:
  assumes "\<not> inheritedName k"
  shows "chainProperty 3 (JArr xs) (JArr xs) k =
           (case arrayIndex k of
              None \<Rightarrow> None
            | Some i \<Rightarrow> (if i < length xs then Some (xs ! i) else None))"
proof -
  from assms have a: "k \<notin> set objectPrototypeMethods" "k \<noteq> ''__proto__''"
    "k \<notin> set arrayPrototypeMethods" "k \<noteq> ''length''"
    by (auto simp: inheritedName_def)
  have three: "(3::nat) = Suc (Suc (Suc 0))" by simp
  show ?thesis using a by (simp add: three split: option.splits)
qed

lemma chain_prototypes:
  assumes "\<not> inheritedName k"
  shows "chainProperty 3 (JBuiltin b) (JBuiltin b) k = None"
proof -
  from assms have a: "k \<notin> set objectPrototypeMethods" "k \<noteq> ''__proto__''"
    "k \<notin> set arrayPrototypeMethods" "k \<noteq> ''length''"
    by (auto simp: inheritedName_def)
  have three: "(3::nat) = Suc (Suc (Suc 0))" by simp
  show ?thesis using a by (cases b) (simp_all add: three)
qed

lemma walkKeys_stored:
  assumes "\<forall>k\<in>set ks. \<not> inheritedName k"
  shows "walkKeys v ks = (case storedLookup v ks of Some x \<Rightarrow> x | None \<Rightarrow> JUndefined)"
  using assms
proof (induction ks arbitrary: v)
  case Nil
  then show ?case by simp
next
  case (Cons k ks)
  then have k: "\<not> inheritedName k" and rest: "\<forall>k\<in>set ks. \<not> inheritedName k" by auto
  note IH = Cons.IH [OF rest]
  show ?case
  proof (cases v)
    case (JObj kvs)
    with IH chain_object [OF k, of kvs] show ?thesis
      by (simp add: hasProperty_def getProperty_def split: option.splits)
  next
    case (JArr xs)
    with IH chain_array [OF k, of xs] show ?thesis
      by (simp add: hasProperty_def getProperty_def split: option.splits)
  next
    case (JBuiltin b)
    with chain_prototypes [OF k, of b] show ?thesis
      by (cases b) (simp_all add: hasProperty_def)
  qed simp_all
qed

lemma getValueFromJSON_on_stored_names:
  assumes "\<forall>k\<in>set (splitDot valuePath). \<not> inheritedName k"
  shows "getValueFromJSON json valuePath =
           (case storedLookup json (splitDot valuePath) of Some x \<Rightarrow> x | None \<Rightarrow> JUndefined)"
  using assms by (simp add: getValueFromJSON_def walkKeys_stored)



section \<open>Uninstalling an unknown plugin\<close>

text \<open>
  Claim C5, as stated, at a concrete input: uninstalling a pluginId that the registry
  does not know is to perform no disk writes. On the fresh manager, whose installation
  root holds no file yet, \<open>uninstallPlugin\<close> writes \<open>index.json\<close> and
  \<open>configuration.json\<close>: the two \<open>writeFileSync\<close> calls are not guarded.
\<close>

theorem uninstall_unknown_writes_files:
  "events (fs freshManager) = []
   \<and> events (fs (uninstallPlugin ''ghost'' freshManager)) =
       [WriteFile ''/plugins/index.json'', WriteFile ''/plugins/configuration.json'']
   \<and> index_json (fs freshManager) = Missing
   \<and> index_json (fs (uninstallPlugin ''ghost'' freshManager)) = Content emptyCatalog"
  by code_simp

text \<open>
  Claim C5, amended: for every pluginId with no entry in the local registry (catalog
  list, versions, installed map, manifests, localization, provider index), uninstall
  leaves every field of the manager as it was and removes no directory; it rewrites
  \<open>index.json\<close> and \<open>configuration.json\<close> from the unchanged catalog and
  configuration store.
\<close>

theorem uninstall_unknown_keeps_registry:
  assumes "pid \<notin> pluginId ` set (plugins (localPlugins st))"
    and "map_of (versions (localPlugins st)) pid = None"
    and "map_of (installedPlugins st) pid = None"
    and "map_of (installedPluginsManifests st) pid = None"
    and "map_of (installedPluginsI18ns st) pid = None"
    and "pid \<notin> pp_pluginId ` set (pluginProviders st)"
  shows "uninstallPlugin pid st =
           st\<lparr>fs := writeConfiguration (location st) (pluginsConfigurations st)
                     (writeIndex (location st) (localPlugins st) (fs st))\<rparr>"
proof -
  have i: "findIndex (\<lambda>p. pluginId p = pid) (plugins (localPlugins st)) = None"
    using assms(1) by (auto simp: findIndex_None_iff)
  have j: "findIndex (\<lambda>p. pp_pluginId p = pid) (pluginProviders st) = None"
    using assms(6) by (auto simp: findIndex_None_iff)
  show ?thesis
    by (simp add: uninstallPlugin_def Let_def i j del_absent assms memoPlugins_eta)
qed

theorem uninstall_unknown_keeps_registry_witness:
  "uninstallPlugin ''ghost'' installedManager =
     installedManager\<lparr>fs := writeConfiguration (location installedManager)
                              (pluginsConfigurations installedManager)
                              (writeIndex (location installedManager)
                                 (localPlugins installedManager) (fs installedManager))\<rparr>
   \<and> map pluginId (plugins (localPlugins (uninstallPlugin ''ghost'' installedManager))) = [''p'']"
proof -
  have 1: "''ghost'' \<notin> pluginId ` set (plugins (localPlugins installedManager))" by code_simp
  have 2: "map_of (versions (localPlugins installedManager)) ''ghost'' = None" by code_simp
  have 3: "map_of (installedPlugins installedManager) ''ghost'' = None" by code_simp
  have 4: "map_of (installedPluginsManifests installedManager) ''ghost'' = None" by code_simp
  have 5: "map_of (installedPluginsI18ns installedManager) ''ghost'' = None" by code_simp
  have 6: "''ghost'' \<notin> pp_pluginId ` set (pluginProviders installedManager)" by code_simp
  have 7: "map pluginId (plugins (localPlugins installedManager)) = [''p'']" by code_simp
  from uninstall_unknown_keeps_registry [OF 1 2 3 4 5 6] 7 show ?thesis by simp
qed

section \<open>Online install of a plugin the online catalog does not list\<close>

text \<open>
  Claim C10: for every pluginId with no entry in the plugin list of the in-memory online
  catalog, \<open>installOnlinePlugins\<close> produces no outcome: the promise stays pending
  (neither resolved nor rejected), whatever the download would have done, and the
  manager and the disk are as before (no download, no write).
\<close>

theorem installOnlinePlugins_unlisted_stays_pending:
  assumes "pid \<notin> pluginId ` set (plugins (onlinePlugins st))"
  shows "installOnlinePlugins downloadFile pid st = (Pending, st)"
  using assms by (simp add: installOnlinePlugins_def find_None_image [THEN iffD2])

theorem installOnlinePlugins_unlisted_stays_pending_witness:
  "''p'' \<notin> pluginId ` set (plugins (onlinePlugins onlineManager))
   \<and> installOnlinePlugins (\<lambda>url. Some (Some (exampleBundle ''p'' ''3.0.0''))) ''p'' onlineManager
       = (Pending, onlineManager)"
proof -
  have h: "''p'' \<notin> pluginId ` set (plugins (onlinePlugins onlineManager))" by code_simp
  from installOnlinePlugins_unlisted_stays_pending [OF h] h show ?thesis by simp
qed

text \<open>For contrast, a listed plugin whose download succeeds is installed and the promise
  is fulfilled; one whose download fails at the request rejects it.\<close>

lemma installOnlinePlugins_listed_example:
  "fst (installOnlinePlugins (\<lambda>url. Some (Some (exampleBundle ''q'' ''1.0.0''))) ''q'' onlineManager)
     = Fulfilled ()
   \<and> fst (installOnlinePlugins (\<lambda>url. None) ''q'' onlineManager) = Rejected NetworkError"
  by code_simp


section \<open>Configuration carried over an upgrade\<close>




text \<open>
  The preset batch has no host settings to inherit from: for a strictly newer
  candidate it copies the old configuration to the new key as it is.
\<close>

lemma installDefaultStep_newer_copies_configuration:
  assumes "map_of (versions inst) (m_pluginId data) = Some installed"
    and "installed \<noteq> []"
    and "cmp (m_version data) installed = Some 1"
    and "map_of cfgs (versionedName (m_pluginId data) installed) = Some oldConfig"
  shows "installDefaultStep cmp dir data inst cfgs =
           Inr (overwritePlugin (pluginOfManifest dir data) inst,
                upd (versionedName (m_pluginId data) (m_version data)) oldConfig cfgs)"
  using assms by (simp add: installDefaultStep_def Let_def pluginOfManifest_def)


section \<open>Installing a version older than the installed one\<close>

text \<open>
  Claim C3, as stated, at a concrete input: installing a candidate strictly older than
  the installed version is to leave catalog, configuration store and manifest as they
  are, in the single-archive install too. Plugin \<open>p\<close> is installed in version 2.0.0;
  \<open>installPlugins\<close> with an archive of version 1.0.0 replaces the descriptor and the
  manifest by those of 1.0.0 and adds a configuration entry: it compares no versions.
\<close>

theorem installPlugins_overwrites_newer_version:
  "compareVersions ''1.0.0'' ''2.0.0'' = Some (- 1)
   \<and> map version (plugins (localPlugins installedManager)) = [''2.0.0'']
   \<and> map_of (pluginsConfigurations installedManager) ''p@1.0.0'' = None
   \<and> (case installPlugins [Some (exampleBundle ''p'' ''1.0.0'')] JUndefined installedManager of
         (result, st') \<Rightarrow>
           result = Inr ()
           \<and> map version (plugins (localPlugins st')) = [''1.0.0'']
           \<and> map_of (versions (localPlugins st')) ''p'' = Some ''1.0.0''
           \<and> map_of (pluginsConfigurations st') ''p@1.0.0'' = Some []
           \<and> map (\<lambda>(k, m). (k, m_version m)) (installedPluginsManifests st') = [(''p'', ''1.0.0'')])"
  by code_simp

text \<open>The body of the batch loop skips a strictly older candidate.\<close>

lemma installDefaultStep_older:
  assumes "map_of (versions inst) (m_pluginId data) = Some installed"
    and "installed \<noteq> []"
    and "cmp (m_version data) installed = Some (- 1)"
  shows "installDefaultStep cmp dir data inst cfgs = Inr (inst, cfgs)"
  using assms by (simp add: installDefaultStep_def Let_def pluginOfManifest_def)

text \<open>
  Claim C3, amended: in the preset batch install, a candidate whose version is strictly
  older than the version recorded for the same pluginId is skipped: the batch goes on
  with the catalog and the configuration store it had, the files \<open>index.json\<close> and
  \<open>configuration.json\<close> are not touched by that archive, and the directory of the
  installed version, manifest included, is unchanged provided the archive is not
  named after that directory.
\<close>

theorem batch_skips_older_candidate:
  assumes v: "map_of (versions inst) (m_pluginId data) = Some installed"
    and e: "installed \<noteq> []"
    and c: "cmp (m_version data) installed = Some (- 1)"
    and m: "manifest_json bundle = Content data"
    and n: "getFileNameWithoutExtension p \<noteq> versionedName (m_pluginId data) installed"
  shows "\<exists>d'. installDefaultLoop cmp dir ((p, Some bundle) # res) inst cfgs d
               = installDefaultLoop cmp dir res inst cfgs d'
            \<and> map_of (folders d') (versionedName (m_pluginId data) installed)
               = map_of (folders d) (versionedName (m_pluginId data) installed)
            \<and> index_json d' = index_json d
            \<and> configuration_json d' = configuration_json d"
proof -
  let ?dest = "getFileNameWithoutExtension p"
  let ?extracted = "mergeDir bundle (map_of (folders d) ?dest)"
  let ?d' = "d\<lparr>folders := upd ?dest ?extracted (folders d),
               events := events d @ [Extract (resolve dir ?dest)]\<rparr>"
  have x: "manifest_json ?extracted = Content data"
    using m by (simp add: mergeDir_def split: option.splits)
  have "installDefaultLoop cmp dir ((p, Some bundle) # res) inst cfgs d
          = installDefaultLoop cmp dir res inst cfgs ?d'"
    by (simp add: Let_def x installDefaultStep_older [where cmp = cmp, OF v e c])
  moreover have "map_of (folders ?d') (versionedName (m_pluginId data) installed)
                   = map_of (folders d) (versionedName (m_pluginId data) installed)"
    using n by (simp add: map_of_upd)
  ultimately show ?thesis by (intro exI [of _ ?d']) simp
qed

theorem batch_skips_older_candidate_witness:
  "fst (installDefaultLoop compareVersions ''/plugins''
          [(''p@1.0.0.memox'', Some (exampleBundle ''p'' ''1.0.0''))]
          (localPlugins installedManager) (pluginsConfigurations installedManager)
          (fs installedManager))
     = Inr (localPlugins installedManager, pluginsConfigurations installedManager)"
proof -
  have v: "map_of (versions (localPlugins installedManager)) (m_pluginId (exampleManifest ''p'' ''1.0.0''))
             = Some ''2.0.0''" by code_simp
  have e: "''2.0.0'' \<noteq> []" by simp
  have c: "compareVersions (m_version (exampleManifest ''p'' ''1.0.0'')) ''2.0.0'' = Some (- 1)"
    by code_simp
  have m: "manifest_json (exampleBundle ''p'' ''1.0.0'') = Content (exampleManifest ''p'' ''1.0.0'')"
    by (simp add: exampleBundle_def)
  have n: "getFileNameWithoutExtension ''p@1.0.0.memox''
             \<noteq> versionedName (m_pluginId (exampleManifest ''p'' ''1.0.0'')) ''2.0.0''"
    by code_simp
  from batch_skips_older_candidate [where cmp = compareVersions and dir = "''/plugins''"
      and res = "[]" and cfgs = "pluginsConfigurations installedManager"
      and d = "fs installedManager", OF v e c m n]
  show ?thesis by auto
qed


section \<open>The preset batch: failures and the flush\<close>






section \<open>The reconciliation pass at startup\<close>





text \<open>For contrast, a descriptor whose directory and manifest are on disk is kept.\<close>

lemma reload_keeps_present_plugin_example:
  "(case readLocalPlugins restartedManager of
      (result, st') \<Rightarrow>
        result = Inr ()
        \<and> map pluginId (plugins (localPlugins st')) = [''p'']
        \<and> map fst (installedPluginsManifests st') = [''p'']
        \<and> map pp_pluginId (pluginProviders st') = [''p''])"
  by code_simp


section \<open>One catalog entry per pluginId\<close>

text \<open>Every operation keeps the pluginIds distinct, in the catalog in memory and in the
  catalog on disk, whether it returns or throws.\<close>

lemma distinct_overwrite:
  assumes "distinct (map pluginId xs)"
  shows "distinct (map pluginId
           (case findIndex (\<lambda>q. pluginId q = pluginId p) xs of
              None \<Rightarrow> p # xs
            | Some i \<Rightarrow> xs[i := p]))"
proof (cases "findIndex (\<lambda>q. pluginId q = pluginId p) xs")
  case None
  then have "pluginId p \<notin> pluginId ` set xs" by (force simp: findIndex_None_iff)
  with assms None show ?thesis by simp
next
  case (Some i)
  from findIndex_Some [OF Some] have "i < length xs" and "pluginId (xs ! i) = pluginId p" by auto
  then have "(map pluginId xs)[i := pluginId p] = map pluginId xs"
    by (simp add: list_update_same_conv)
  with assms Some show ?thesis by (simp add: map_update)
qed

lemma uniqueIds_overwritePlugin: "uniqueIds inst \<Longrightarrow> uniqueIds (overwritePlugin p inst)"
  using distinct_overwrite [of "plugins inst" p]
  by (simp add: uniqueIds_def overwritePlugin_def split: option.splits)

lemma uniqueIds_emptyCatalog: "uniqueIds emptyCatalog"
  by (simp add: uniqueIds_def emptyCatalog_def)

lemma installPlugins_unique:
  assumes "catalogsUnique st"
  shows "catalogsUnique (snd (installPlugins pluginsPacks setting st))"
proof (cases pluginsPacks)
  case Nil
  with assms show ?thesis by (simp add: installPlugins_def)
next
  case (Cons pack rest)
  show ?thesis
  proof (cases pack)
    case None
    with Cons assms show ?thesis by (simp add: installPlugins_def)
  next
    case (Some files)
    show ?thesis
    proof (cases "manifest_json files")
      case Missing
      with Cons Some assms show ?thesis by (simp add: installPlugins_def)
    next
      case Malformed
      with Cons Some assms show ?thesis by (simp add: installPlugins_def)
    next
      case (Content data)
      let ?p = "pluginOfManifest (location st) data"
      let ?dir = "mergeDir files (map_of (folders (fs st))
                    (versionedName (m_pluginId data) (m_version data)))"
      from assms have d: "distinct (map pluginId (plugins (localPlugins st)))"
        by (simp add: catalogsUnique_def uniqueIds_def)
      note o = distinct_overwrite [OF d, of ?p]
      show ?thesis
      proof (cases "i18n_json ?dir = Malformed")
        case True
        with Cons Some Content assms show ?thesis
          by (simp add: installPlugins_def Let_def catalogsUnique_def)
      next
        case False
        with Cons Some Content o show ?thesis
          by (cases "i18n_json ?dir")
             (simp_all add: installPlugins_def Let_def catalogsUnique_def uniqueIds_def
                writeConfiguration_def writeIndex_def split: option.splits)
      qed
    qed
  qed
qed

lemma uninstallPlugin_unique:
  assumes "catalogsUnique st"
  shows "catalogsUnique (uninstallPlugin pid st)"
proof -
  from assms have d: "distinct (map pluginId (plugins (localPlugins st)))"
    by (simp add: catalogsUnique_def uniqueIds_def)
  then have "distinct (map pluginId
               (case findIndex (\<lambda>p. pluginId p = pid) (plugins (localPlugins st)) of
                  None \<Rightarrow> plugins (localPlugins st)
                | Some i \<Rightarrow> removeAt i (plugins (localPlugins st))))"
    by (simp add: map_removeAt distinct_removeAt split: option.splits)
  then show ?thesis
    by (simp add: uninstallPlugin_def Let_def catalogsUnique_def uniqueIds_def
          writeConfiguration_def writeIndex_def split: option.splits)
qed

lemma readLocalPlugins_unique:
  assumes "catalogsUnique st"
  shows "catalogsUnique (snd (readLocalPlugins st))"
proof (cases "readCachedCatalog st")
  case (Inl e)
  with assms show ?thesis by (simp add: readLocalPlugins_def)
next
  case (Inr st1)
  note f1 = readCachedCatalog_frame [OF Inr]
  from assms f1 have u1: "catalogsUnique st1" by (simp add: catalogsUnique_def)
  show ?thesis
  proof (cases "index_json (fs st1)")
    case Missing
    with Inr u1 show ?thesis by (simp add: readLocalPlugins_def)
  next
    case Malformed
    with Inr u1 show ?thesis by (simp add: readLocalPlugins_def)
  next
    case (Content data)
    let ?st2 = "recordInstalled data st1"
    obtain r st3 where loop: "readLocalLoop (map fst (installedPlugins ?st2)) data ?st2 = (r, st3)"
      by (cases "readLocalLoop (map fst (installedPlugins ?st2)) data ?st2")
    from readLocalLoop_frame [OF loop]
    have f3: "fs st3 = fs st1" "plugins (localPlugins st3) = plugins (localPlugins st1)"
      and u: "case r of Inr data' \<Rightarrow> uniqueIds data \<longrightarrow> uniqueIds data' | Inl e \<Rightarrow> True"
      by (simp_all add: recordInstalled_def)
    from u1 f3 have u3: "catalogsUnique st3" by (simp add: catalogsUnique_def uniqueIds_def)
    from u1 Content have ud: "uniqueIds data" by (simp add: catalogsUnique_def)
    show ?thesis
    proof (cases r)
      case (Inl e)
      with Inr Content loop u3 show ?thesis by (simp add: readLocalPlugins_def Let_def)
    next
      case (Inr data')
      with u ud have ud': "uniqueIds data'" by simp
      show ?thesis
      proof (cases "readConfigurations st3")
        case (Inl e)
        with \<open>readCachedCatalog st = Inr st1\<close> Content loop Inr u3 show ?thesis
          by (simp add: readLocalPlugins_def Let_def)
      next
        case c: (Inr st4)
        note f4 = readConfigurations_frame [OF c]
        from u3 f4 have u4: "catalogsUnique st4" by (simp add: catalogsUnique_def)
        show ?thesis
        proof (cases "readCache st4")
          case (Inl e)
          with \<open>readCachedCatalog st = Inr st1\<close> Content loop Inr c u4 show ?thesis
            by (simp add: readLocalPlugins_def Let_def)
        next
          case k: (Inr st5)
          note f5 = readCache_frame [OF k]
          from u4 f5 ud' have "catalogsUnique (st5\<lparr>localPlugins := data'\<rparr>)"
            by (simp add: catalogsUnique_def)
          with \<open>readCachedCatalog st = Inr st1\<close> Content loop Inr c k show ?thesis
            by (simp add: readLocalPlugins_def Let_def)
        qed
      qed
    qed
  qed
qed


lemma installDefaultStep_unique:
  assumes "installDefaultStep cmp dir data inst cfgs = Inr (inst', cfgs')" and "uniqueIds inst"
  shows "uniqueIds inst'"
  using assms
  by (auto simp: installDefaultStep_def Let_def uniqueIds_overwritePlugin
           split: option.splits if_splits)

lemma installDefaultLoop_unique:
  assumes "installDefaultLoop cmp dir res inst cfgs d = (Inr (inst', cfgs'), d')"
    and "uniqueIds inst"
  shows "uniqueIds inst'"
  using assms
proof (induction res arbitrary: inst cfgs d)
  case Nil
  then show ?case by simp
next
  case (Cons a res)
  obtain p pack where a: "a = (p, pack)" by (cases a)
  show ?case
  proof (cases pack)
    case None
    with Cons.prems a show ?thesis by (auto simp: Let_def split: option.splits)
  next
    case (Some files)
    let ?dest = "getFileNameWithoutExtension p"
    let ?extracted = "mergeDir files (map_of (folders d) ?dest)"
    let ?d1 = "d\<lparr>folders := upd ?dest ?extracted (folders d),
                 events := events d @ [Extract (resolve dir ?dest)]\<rparr>"
    show ?thesis
    proof (cases "manifest_json ?extracted")
      case Missing
      with Cons.prems a Some show ?thesis by (auto simp: Let_def)
    next
      case Malformed
      with Cons.prems a Some show ?thesis by (auto simp: Let_def)
    next
      case (Content data)
      show ?thesis
      proof (cases "installDefaultStep cmp dir data inst cfgs")
        case (Inl e)
        with Cons.prems a Some Content show ?thesis by (auto simp: Let_def)
      next
        case (Inr ic)
        obtain inst1 cfgs1 where ic: "ic = (inst1, cfgs1)" by (cases ic)
        from Cons.prems(1) a Some Content Inr ic
        have rest: "installDefaultLoop cmp dir res inst1 cfgs1 ?d1 = (Inr (inst', cfgs'), d')"
          by (simp add: Let_def)
        from installDefaultStep_unique [OF Inr [unfolded ic] Cons.prems(2)]
        have "uniqueIds inst1" .
        from Cons.IH [OF rest this] show ?thesis .
      qed
    qed
  qed
qed

lemma installDefaultPlugins_unique:
  assumes "catalogsUnique st"
  shows "catalogsUnique (snd (installDefaultPlugins cmp st))"
proof (cases "preset_memox (fs st)")
  case None
  with assms show ?thesis by (simp add: installDefaultPlugins_def)
next
  case (Some res)
  show ?thesis
  proof (cases "res = [] \<or> configuration_json (fs st) = Malformed \<or> index_json (fs st) = Malformed")
    case True
    with Some assms show ?thesis
      by (auto simp: installDefaultPlugins_def split: fileContent.splits)
  next
    case False
    let ?cfgs0 = "case configuration_json (fs st) of Content c \<Rightarrow> c | _ \<Rightarrow> []"
    let ?inst0 = "case index_json (fs st) of Content c \<Rightarrow> c | _ \<Rightarrow> emptyCatalog"
    let ?d0 = "case index_json (fs st) of
                 Missing \<Rightarrow> writeIndex (location st) emptyCatalog (fs st) | _ \<Rightarrow> fs st"
    obtain r d1 where loop: "installDefaultLoop cmp (location st) res ?inst0 ?cfgs0 ?d0 = (r, d1)"
      by (cases "installDefaultLoop cmp (location st) res ?inst0 ?cfgs0 ?d0")
    from assms have u0: "uniqueIds ?inst0"
      by (cases "index_json (fs st)") (simp_all add: catalogsUnique_def uniqueIds_emptyCatalog)
    from assms have ud0: "case index_json ?d0 of Content c \<Rightarrow> uniqueIds c | _ \<Rightarrow> True"
      by (cases "index_json (fs st)")
         (simp_all add: catalogsUnique_def uniqueIds_emptyCatalog writeIndex_def)
    from installDefaultLoop_writes_nothing [OF loop] have i1: "index_json d1 = index_json ?d0"
      by simp
    from assms have ul: "uniqueIds (localPlugins st)" by (simp add: catalogsUnique_def)
    have unfolded: "installDefaultPlugins cmp st =
        (case r of
           Inl e \<Rightarrow> (Inl e, st\<lparr>fs := d1\<rparr>)
         | Inr (inst, cfgs) \<Rightarrow>
             (let d2 = writeConfiguration (location st) cfgs (writeIndex (location st) inst d1);
                  d3 = (if removeDefaultPlugins st
                        then d2\<lparr>preset_memox := Some [],
                                events := events d2 @
                                  map (\<lambda>(p, pack). RemoveFile (resolve (presetLocation st) p)) res\<rparr>
                        else d2)
              in (Inr (), st\<lparr>fs := d3\<rparr>)))"
      using False Some loop
      by (cases "configuration_json (fs st)"; cases "index_json (fs st)")
         (simp_all add: installDefaultPlugins_def Let_def)
    show ?thesis
    proof (cases r)
      case (Inl e)
      with unfolded ul ud0 i1 show ?thesis by (simp add: catalogsUnique_def)
    next
      case (Inr ic)
      obtain inst cfgs where ic: "ic = (inst, cfgs)" by (cases ic)
      from installDefaultLoop_unique [OF loop [unfolded Inr ic] u0] have "uniqueIds inst" .
      with unfolded Inr ic ul show ?thesis
        by (simp add: catalogsUnique_def Let_def writeConfiguration_def writeIndex_def)
    qed
  qed
qed

lemma installOnlinePlugins_unique:
  assumes "catalogsUnique st"
  shows "catalogsUnique (snd (installOnlinePlugins downloadFile pid st))"
proof (cases "find (\<lambda>p. pluginId p = pid) (plugins (onlinePlugins st))")
  case None
  with assms show ?thesis by (simp add: installOnlinePlugins_def)
next
  case (Some online)
  show ?thesis
  proof (cases "downloadFile (link online)")
    case None
    with Some assms show ?thesis by (simp add: installOnlinePlugins_def)
  next
    case dl: (Some pack)
    let ?st1 = "st\<lparr>fs := (fs st)\<lparr>events := events (fs st) @
                                     [Download (resolve (location st) ''_download'')]\<rparr>\<rparr>"
    from assms have "catalogsUnique ?st1" by (simp add: catalogsUnique_def)
    from installPlugins_unique [OF this, of "[pack]" JUndefined]
    have u: "catalogsUnique (snd (installPlugins [pack] JUndefined ?st1))" .
    obtain r st2 where i: "installPlugins [pack] JUndefined ?st1 = (r, st2)"
      by (cases "installPlugins [pack] JUndefined ?st1")
    from u i have "catalogsUnique st2" by simp
    with Some dl i show ?thesis
      by (cases r) (simp_all add: installOnlinePlugins_def Let_def)
  qed
qed

lemma saveConfiguration_unique:
  "catalogsUnique st \<Longrightarrow> catalogsUnique (saveConfiguration pid data st)"
  by (simp add: saveConfiguration_def Let_def catalogsUnique_def writeConfiguration_def
        split: option.splits)

lemma refreshOnlinePlugins_unique:
  "catalogsUnique st \<Longrightarrow> catalogsUnique (snd (refreshOnlinePlugins response st))"
  by (auto simp: refreshOnlinePlugins_def getOnlinePlugins_def catalogsUnique_def
        writePlugins_def Let_def split: fetchOutcome.splits responseBody.splits fileContent.splits)

lemma perform_unique: "catalogsUnique st \<Longrightarrow> catalogsUnique (perform cmp op st)"
  by (cases op)
     (simp_all add: installPlugins_unique installOnlinePlugins_unique installDefaultPlugins_unique
        uninstallPlugin_unique readLocalPlugins_unique saveConfiguration_unique
        refreshOnlinePlugins_unique)

text \<open>
  Claim C8: after every sequence of install, uninstall and reload operations (and of
  the other calls of the manager), started on a manager whose catalog in memory and
  in \<open>index.json\<close> has at most one entry per pluginId (as on a fresh installation
  root), the plugin list of the local catalog has at most one entry per pluginId.
\<close>

theorem catalog_ids_stay_unique:
  assumes "catalogsUnique st"
  shows "catalogsUnique (fold (perform cmp) ops st)
       \<and> distinct (map pluginId (plugins (localPlugins (fold (perform cmp) ops st))))"
proof -
  have "catalogsUnique (fold (perform cmp) ops st)"
    using assms by (induction ops arbitrary: st) (simp_all add: perform_unique)
  then show ?thesis by (simp add: catalogsUnique_def uniqueIds_def)
qed

theorem catalog_ids_stay_unique_witness:
  "catalogsUnique freshManager
   \<and> distinct (map pluginId (plugins (localPlugins
        (fold (perform compareVersions)
           [Install [Some (exampleBundle ''p'' ''1.0.0'')] JUndefined,
            Install [Some (exampleBundle ''q'' ''1.0.0'')] JUndefined,
            Install [Some (exampleBundle ''p'' ''2.0.0'')] JUndefined,
            Reload, Uninstall ''r''] freshManager))))
   \<and> map (\<lambda>p. (pluginId p, version p)) (plugins (localPlugins
        (fold (perform compareVersions)
           [Install [Some (exampleBundle ''p'' ''1.0.0'')] JUndefined,
            Install [Some (exampleBundle ''q'' ''1.0.0'')] JUndefined,
            Install [Some (exampleBundle ''p'' ''2.0.0'')] JUndefined,
            Reload, Uninstall ''r''] freshManager)))
     = [(''q'', ''1.0.0''), (''p'', ''2.0.0'')]"
proof -
  let ?ops = "[Install [Some (exampleBundle ''p'' ''1.0.0'')] JUndefined,
               Install [Some (exampleBundle ''q'' ''1.0.0'')] JUndefined,
               Install [Some (exampleBundle ''p'' ''2.0.0'')] JUndefined,
               Reload, Uninstall ''r'']"
  have h: "catalogsUnique freshManager" by code_simp
  have e: "map (\<lambda>p. (pluginId p, version p)) (plugins (localPlugins
             (fold (perform compareVersions) ?ops freshManager)))
           = [(''q'', ''1.0.0''), (''p'', ''2.0.0'')]" by code_simp
  have d: "distinct (map pluginId (plugins (localPlugins
             (fold (perform compareVersions) ?ops freshManager))))"
    using catalog_ids_stay_unique [OF h, of compareVersions ?ops] by (rule conjunct2)
  show ?thesis by (rule conjI [OF h conjI [OF d e]])
qed

text \<open>An install replaces the descriptor of an installed plugin in place, and puts the
  descriptor of a new plugin in front.\<close>

lemma installPlugins_replaces_in_place:
  assumes "manifest_json files = Content data"
    and "i18n_json (mergeDir files
           (map_of (folders (fs st)) (versionedName (m_pluginId data) (m_version data))))
         \<noteq> Malformed"
  shows "plugins (localPlugins (snd (installPlugins (Some files # rest) setting st))) =
           (case findIndex (\<lambda>p. pluginId p = m_pluginId data) (plugins (localPlugins st)) of
              None \<Rightarrow> pluginOfManifest (location st) data # plugins (localPlugins st)
            | Some i \<Rightarrow> (plugins (localPlugins st))[i := pluginOfManifest (location st) data])"
proof -
  have p: "pluginId (pluginOfManifest (location st) data) = m_pluginId data"
    by (simp add: pluginOfManifest_def)
  show ?thesis
    using assms(2)
    by (cases "i18n_json (mergeDir files
           (map_of (folders (fs st)) (versionedName (m_pluginId data) (m_version data))))")
       (simp_all add: installPlugins_def Let_def assms(1) p)
qed


end
